theory Spec2Isabelle
  imports
    Main
    "HOL-Library.Char_ord"
    "HOL-Library.List_Lexorder"
    "HOL-Library.Product_Lexorder"
    "HOL-Library.Multiset"
begin

section \<open>Values that \<open>json.load\<close> returns\<close>

text \<open>
  A Python \<open>str\<close> is modelled by the bytes of its UTF-8 encoding: that encoding keeps the
  order of code points, so the lexicographic order of the byte lists is the order in which
  Python compares the strings. A \<open>float\<close> is modelled by the two things
  \<open>generate_components.py\<close> can observe of it: whether it is zero (its truth value) and the
  text \<open>json.dump\<close> writes for it (its \<open>repr\<close>, or \<open>NaN\<close>, \<open>Infinity\<close>, \<open>-Infinity\<close>). A \<open>dict\<close> is
  an association list in insertion order; the keys of a parsed object are distinct.
\<close>

datatype json =
    JNull
  | JBool bool
  | JInt int
  | JFloat bool string
  | JStr string
  | JArr "json list"
  | JObj "(string \<times> json) list"

datatype error = AttributeError | TypeError | ValueError | SystemExit string

text \<open>Python's truth value of an object, as \<open>or\<close> and \<open>if\<close> test it.\<close>

fun truthy :: "json \<Rightarrow> bool" where
  "truthy JNull = False"
| "truthy (JBool b) = b"
| "truthy (JInt i) = (i \<noteq> 0)"
| "truthy (JFloat is_zero r) = (\<not> is_zero)"
| "truthy (JStr s) = (s \<noteq> [])"
| "truthy (JArr xs) = (xs \<noteq> [])"
| "truthy (JObj kvs) = (kvs \<noteq> [])"

text \<open>\<open>a or b\<close>\<close>

definition py_or :: "json \<Rightarrow> json \<Rightarrow> json" where
  "py_or a b = (if truthy a then a else b)"

text \<open>\<open>d.get(k, default)\<close> on a dict.\<close>

definition dict_get :: "(string \<times> json) list \<Rightarrow> string \<Rightarrow> json \<Rightarrow> json" where
  "dict_get d k dflt = (case map_of d k of None \<Rightarrow> dflt | Some v \<Rightarrow> v)"

text \<open>
  \<open>x.get(k, default)\<close> on any parsed value: only a dict has the method; a list, a str, a
  number, a bool and \<open>None\<close> raise \<open>AttributeError\<close>.
\<close>

fun py_get :: "json \<Rightarrow> string \<Rightarrow> json \<Rightarrow> error + json" where
  "py_get (JObj d) k dflt = Inr (dict_get d k dflt)"
| "py_get v k dflt = Inl AttributeError"

text \<open>
  \<open>for x in v\<close>: a list gives its entries, a dict its keys, a str its characters (each a
  str; the model gives one per byte, and only their being strs is ever observed); a number, a
  bool and \<open>None\<close> are not iterable.
\<close>

fun py_iter :: "json \<Rightarrow> error + json list" where
  "py_iter (JArr xs) = Inr xs"
| "py_iter (JObj d) = Inr (map (\<lambda>kv. JStr (fst kv)) d)"
| "py_iter (JStr s) = Inr (map (\<lambda>c. JStr [c]) s)"
| "py_iter v = Inl TypeError"

section \<open>Paths\<close>

text \<open>
  A \<open>pathlib.Path\<close> of a POSIX system, as the list of its parts after the root \<open>/\<close>
  (absolute paths) or from the start (relative paths).
\<close>

type_synonym path = "string list"

text \<open>\<open>sep.join(parts)\<close>\<close>

fun str_join :: "string \<Rightarrow> string list \<Rightarrow> string" where
  "str_join sep [] = []"
| "str_join sep [x] = x"
| "str_join sep (x # y # ys) = x @ sep @ str_join sep (y # ys)"

text \<open>\<open>str(p)\<close> of an absolute path.\<close>

definition path_str :: "path \<Rightarrow> string" where
  "path_str p = (if p = [] then ''/'' else concat (map (\<lambda>s. ''/'' @ s) p))"

text \<open>\<open>p.relative_to(root)\<close>: the parts below \<open>root\<close>; \<open>None\<close> stands for \<open>ValueError\<close>.\<close>

fun relative_to :: "path \<Rightarrow> path \<Rightarrow> path option" where
  "relative_to p [] = Some p"
| "relative_to [] (r # rs) = None"
| "relative_to (x # xs) (r # rs) = (if x = r then relative_to xs rs else None)"

text \<open>\<open>rel.as_posix()\<close> of a relative path: the empty path is written \<open>.\<close>\<close>

definition as_posix :: "path \<Rightarrow> string" where
  "as_posix rel = (if rel = [] then ''.'' else str_join ''/'' rel)"

text \<open>\<open>name.rfind(c)\<close>; \<open>None\<close> stands for \<open>-1\<close>.\<close>

fun rfind :: "char \<Rightarrow> string \<Rightarrow> nat option" where
  "rfind c [] = None"
| "rfind c (x # xs) =
     (case rfind c xs of
        Some i \<Rightarrow> Some (Suc i)
      | None \<Rightarrow> if x = c then Some 0 else None)"

text \<open>
  \<open>Path(name).stem\<close> for a single part: the name up to its last dot, when that dot is neither
  the first nor the last character (\<open>0 < i < len(name) - 1\<close>, the rule of \<open>pathlib\<close> up to
  Python 3.13; later versions differ only on names that end in a dot or start with two).
\<close>

definition stem :: "string \<Rightarrow> string" where
  "stem name =
     (case rfind CHR ''.'' name of
        None \<Rightarrow> name
      | Some i \<Rightarrow> if 0 < i \<and> i + 1 < length name then take i name else name)"

text \<open>\<open>p.stem\<close> of a path: the stem of its last part.\<close>

definition path_stem :: "path \<Rightarrow> string" where
  "path_stem p = (if p = [] then [] else stem (last p))"

text \<open>
  \<open>infer_project_name_from_path\<close>. \<open>SBOM_ROOT\<close> is \<open>Path(__file__).resolve().parent / "sboms"\<close>,
  fixed by where the script lies, so it is a parameter here.
\<close>

definition infer_project_name_from_path :: "path \<Rightarrow> path \<Rightarrow> string" where
  "infer_project_name_from_path SBOM_ROOT sbom_path =
     (case relative_to sbom_path SBOM_ROOT of
        None \<Rightarrow> path_stem sbom_path
      | Some rel \<Rightarrow>
          (let parts = (if rel \<noteq> [] then butlast rel @ [stem (last rel)] else rel)
           in str_join ''/'' parts))"

section \<open>Extraction\<close>

record component_record =
  project_name :: json
  project_version :: json
  project_group :: json
  sbom_path :: string
  component_name :: json
  component_version :: json
  component_group :: json
  component_type :: json
  purl :: json
  licenses :: "json list"

text \<open>What opening a file and \<open>json.load\<close> give: an exception with its message, or a value.\<close>

datatype read_result = ReadFailed string | Parsed json

text \<open>
  The inner loop, lines 46 to 51: \<open>for l in ...: lic = l.get("license", {}) ...\<close>, with the
  list \<open>licenses\<close> built so far as accumulator.
\<close>

fun license_loop :: "json list \<Rightarrow> json list \<Rightarrow> error + json list" where
  "license_loop [] acc = Inr acc"
| "license_loop (l # ls) acc =
     (case py_get l ''license'' (JObj []) of
        Inl e \<Rightarrow> Inl e
      | Inr lic \<Rightarrow>
          (case lic of
             JObj d \<Rightarrow>
               (let lic_id = py_or (dict_get d ''id'' JNull) (dict_get d ''name'' JNull)
                in if truthy lic_id then license_loop ls (acc @ [lic_id])
                   else license_loop ls acc)
           | _ \<Rightarrow> license_loop ls acc))"

text \<open>
  The body of the outer loop, lines 39 to 66, for one entry \<open>c\<close> of \<open>components\<close>: the record
  it appends, or the exception it raises.
\<close>

definition extract_component ::
  "path \<Rightarrow> path \<Rightarrow> json \<Rightarrow> json \<Rightarrow> json \<Rightarrow> json \<Rightarrow> error + component_record" where
  "extract_component SBOM_ROOT sbom_file p_name p_version p_group c =
     (case c of
        JObj d \<Rightarrow>
          (let name = dict_get d ''name'' (JStr []);
               version = dict_get d ''version'' (JStr []);
               group = dict_get d ''group'' (JStr []);
               purl_v = dict_get d ''purl'' (JStr []);
               c_type = dict_get d ''type'' (JStr [])
           in case py_iter (py_or (dict_get d ''licenses'' (JArr [])) (JArr [])) of
                Inl e \<Rightarrow> Inl e
              | Inr ls \<Rightarrow>
                  (case license_loop ls [] of
                     Inl e \<Rightarrow> Inl e
                   | Inr lics \<Rightarrow>
                       (case relative_to sbom_file SBOM_ROOT of
                          None \<Rightarrow> Inl ValueError
                        | Some rel \<Rightarrow>
                            Inr \<lparr> project_name = p_name,
                                  project_version = p_version,
                                  project_group = p_group,
                                  sbom_path = as_posix rel,
                                  component_name = name,
                                  component_version = version,
                                  component_group = group,
                                  component_type = c_type,
                                  purl = purl_v,
                                  licenses = lics \<rparr>)))
      | _ \<Rightarrow> Inl AttributeError)"

text \<open>The outer loop, line 38, with \<open>results\<close> as accumulator.\<close>

fun component_loop ::
  "path \<Rightarrow> path \<Rightarrow> json \<Rightarrow> json \<Rightarrow> json \<Rightarrow> json list \<Rightarrow> component_record list
     \<Rightarrow> error + component_record list" where
  "component_loop SBOM_ROOT sbom_file pn pv pg [] results = Inr results"
| "component_loop SBOM_ROOT sbom_file pn pv pg (c # cs) results =
     (case extract_component SBOM_ROOT sbom_file pn pv pg c of
        Inl e \<Rightarrow> Inl e
      | Inr r \<Rightarrow> component_loop SBOM_ROOT sbom_file pn pv pg cs (results @ [r]))"

text \<open>Lines 29 to 68: what is done with a document that was read and parsed.\<close>

definition extract_parsed :: "path \<Rightarrow> path \<Rightarrow> json \<Rightarrow> error + component_record list" where
  "extract_parsed SBOM_ROOT sbom_file data =
     (case py_get data ''components'' (JArr []) of
        Inl e \<Rightarrow> Inl e
      | Inr components \<Rightarrow>
     (case py_get data ''metadata'' (JObj []) of
        Inl e \<Rightarrow> Inl e
      | Inr metadata \<Rightarrow>
     (case py_get metadata ''component'' (JObj []) of
        Inl e \<Rightarrow> Inl e
      | Inr meta_component \<Rightarrow>
     (case py_get meta_component ''name'' JNull of
        Inl e \<Rightarrow> Inl e
      | Inr declared \<Rightarrow>
     (let p_name = py_or declared (JStr (infer_project_name_from_path SBOM_ROOT sbom_file))
      in
     (case py_get meta_component ''version'' (JStr []) of
        Inl e \<Rightarrow> Inl e
      | Inr p_version \<Rightarrow>
     (case py_get meta_component ''group'' (JStr []) of
        Inl e \<Rightarrow> Inl e
      | Inr p_group \<Rightarrow>
     (case py_iter components of
        Inl e \<Rightarrow> Inl e
      | Inr cs \<Rightarrow> component_loop SBOM_ROOT sbom_file p_name p_version p_group cs []))))))))"

text \<open>
  \<open>extract_components_from_sbom\<close>: the lines it prints, and the list it returns or the
  exception that leaves it. Every exception of the read is caught (\<open>except Exception\<close>).
\<close>

definition extract_components_from_sbom ::
  "path \<Rightarrow> path \<Rightarrow> read_result \<Rightarrow> string list \<times> (error + component_record list)" where
  "extract_components_from_sbom SBOM_ROOT sbom_file rd =
     (case rd of
        ReadFailed e \<Rightarrow>
          ([''[WARN] Failed to read SBOM '' @ path_str sbom_file @ '': '' @ e], Inr [])
      | Parsed data \<Rightarrow> ([], extract_parsed SBOM_ROOT sbom_file data))"

section \<open>Writing JSON: \<open>json.dump(obj, f, indent=2)\<close>\<close>

definition digit_char :: "nat \<Rightarrow> char" where
  "digit_char d = char_of (48 + d)"

text \<open>\<open>str(n)\<close> of a natural number.\<close>

function show_nat :: "nat \<Rightarrow> string" where
  "show_nat n = (if n < 10 then [digit_char n] else show_nat (n div 10) @ [digit_char (n mod 10)])"
  by pat_completeness auto
termination
  by (relation "measure id") auto

declare show_nat.simps [simp del]

text \<open>\<open>int.__repr__\<close>\<close>

definition show_int :: "int \<Rightarrow> string" where
  "show_int i = (if i < 0 then ''-'' @ show_nat (nat (- i)) else show_nat (nat i))"

definition hex_char :: "nat \<Rightarrow> char" where
  "hex_char d = (if d < 10 then char_of (48 + d) else char_of (87 + d))"

text \<open>\<open>'\\u{0:04x}'.format(n)\<close> for \<open>n < 0x10000\<close>\<close>

definition u_escape :: "nat \<Rightarrow> string" where
  "u_escape n =
     [CHR 0x5C, CHR ''u'', hex_char (n div 4096 mod 16), hex_char (n div 256 mod 16),
      hex_char (n div 16 mod 16), hex_char (n mod 16)]"

text \<open>
  The replacement \<open>py_encode_basestring_ascii\<close> makes for one code point: printable ASCII
  other than the quote and the backslash stays, the rest is escaped; a code point above
  \<open>0xFFFF\<close> becomes a surrogate pair.
\<close>

definition escape_code_point :: "nat \<Rightarrow> string" where
  "escape_code_point n =
     (if n = 0x5C then [CHR 0x5C, CHR 0x5C]
      else if n = 0x22 then [CHR 0x5C, CHR 0x22]
      else if n = 0x0A then [CHR 0x5C, CHR ''n'']
      else if n = 0x0D then [CHR 0x5C, CHR ''r'']
      else if n = 0x09 then [CHR 0x5C, CHR ''t'']
      else if n = 0x08 then [CHR 0x5C, CHR ''b'']
      else if n = 0x0C then [CHR 0x5C, CHR ''f'']
      else if 0x20 \<le> n \<and> n \<le> 0x7E then [char_of n]
      else if n < 0x10000 then u_escape n
      else (let m = n - 0x10000
            in u_escape (0xD800 + m div 1024 mod 1024) @ u_escape (0xDC00 + m mod 1024)))"

text \<open>
  The code points of a str, from its UTF-8 bytes. A byte that starts no well-formed sequence
  is passed on as it is; no str gives such bytes.
\<close>

fun code_points :: "string \<Rightarrow> nat list" where
  "code_points [] = []"
| "code_points [a] = [of_char a]"
| "code_points [a, b] =
     (let x = of_char a; y = of_char b
      in if 0xC0 \<le> x \<and> x < 0xE0 then [(x - 0xC0) * 64 + y mod 64]
         else x # code_points [b])"
| "code_points [a, b, c] =
     (let x = of_char a; y = of_char b; z = of_char c
      in if 0xC0 \<le> x \<and> x < 0xE0 then ((x - 0xC0) * 64 + y mod 64) # code_points [c]
         else if 0xE0 \<le> x \<and> x < 0xF0 then [(x - 0xE0) * 4096 + (y mod 64) * 64 + z mod 64]
         else x # code_points [b, c])"
| "code_points (a # b # c # d # rest) =
     (let x = of_char a; y = of_char b; z = of_char c; u = of_char d
      in if 0xC0 \<le> x \<and> x < 0xE0 then ((x - 0xC0) * 64 + y mod 64) # code_points (c # d # rest)
         else if 0xE0 \<le> x \<and> x < 0xF0
           then ((x - 0xE0) * 4096 + (y mod 64) * 64 + z mod 64) # code_points (d # rest)
         else if 0xF0 \<le> x \<and> x < 0xF8
           then ((x - 0xF0) * 262144 + (y mod 64) * 4096 + (z mod 64) * 64 + u mod 64)
                # code_points rest
         else x # code_points (b # c # d # rest))"

text \<open>\<open>py_encode_basestring_ascii(s)\<close>: the JSON string literal, in ASCII.\<close>

definition encode_basestring_ascii :: "string \<Rightarrow> string" where
  "encode_basestring_ascii s =
     [CHR 0x22] @ concat (map escape_code_point (code_points s)) @ [CHR 0x22]"

text \<open>A line break and the indentation of a nesting level, two spaces each.\<close>

definition newline_indent :: "nat \<Rightarrow> string" where
  "newline_indent level = CHR 0x0A # replicate (2 * level) CHR '' ''"

text \<open>
  The encoder of \<open>json.dump\<close> with \<open>indent=2\<close>, at a nesting level: an empty list is \<open>[]\<close>
  and an empty dict \<open>{}\<close>; otherwise each entry stands on a line of its own, entries are
  separated by a comma, and a key is followed by a colon and a space.
\<close>

fun iterencode :: "nat \<Rightarrow> json \<Rightarrow> string" where
  "iterencode level JNull = ''null''"
| "iterencode level (JBool b) = (if b then ''true'' else ''false'')"
| "iterencode level (JInt i) = show_int i"
| "iterencode level (JFloat is_zero r) = r"
| "iterencode level (JStr s) = encode_basestring_ascii s"
| "iterencode level (JArr xs) =
     (if xs = [] then ''[]''
      else ''['' @ newline_indent (Suc level)
           @ str_join ('','' @ newline_indent (Suc level)) (map (iterencode (Suc level)) xs)
           @ newline_indent level @ '']'')"
| "iterencode level (JObj d) =
     (if d = [] then ''{}''
      else ''{'' @ newline_indent (Suc level)
           @ str_join ('','' @ newline_indent (Suc level))
               (map (\<lambda>kv. encode_basestring_ascii (fst kv) @ '': ''
                           @ iterencode (Suc level) (snd kv)) d)
           @ newline_indent level @ ''}'')"

text \<open>The dict that line 54 builds, with its keys in the order they are written.\<close>

definition record_json :: "component_record \<Rightarrow> json" where
  "record_json r =
     JObj [(''project_name'', project_name r),
           (''project_version'', project_version r),
           (''project_group'', project_group r),
           (''sbom_path'', JStr (sbom_path r)),
           (''component_name'', component_name r),
           (''component_version'', component_version r),
           (''component_group'', component_group r),
           (''component_type'', component_type r),
           (''purl'', purl r),
           (''licenses'', JArr (licenses r))]"

text \<open>The text \<open>json.dump(all_components, f, indent=2)\<close> writes.\<close>

definition json_dump :: "component_record list \<Rightarrow> string" where
  "json_dump all_components = iterencode 0 (JArr (map record_json all_components))"

section \<open>The run\<close>

text \<open>
  \<open>BASE_DIR\<close> is \<open>Path(__file__).resolve().parent\<close>; the other three paths are built from it.
\<close>

record config =
  dunder_file :: string
  BASE_DIR :: path

definition SBOM_ROOT :: "config \<Rightarrow> path" where
  "SBOM_ROOT cfg = BASE_DIR cfg @ [''sboms'']"

definition OUTPUT_DIR :: "config \<Rightarrow> path" where
  "OUTPUT_DIR cfg = BASE_DIR cfg @ [''data'']"

definition OUTPUT_FILE :: "config \<Rightarrow> path" where
  "OUTPUT_FILE cfg = OUTPUT_DIR cfg @ [''components.json'']"

text \<open>
  What the program sees and changes of the file system and the console:
  \<^item> \<open>root_exists\<close>: \<open>SBOM_ROOT.exists()\<close>;
  \<^item> \<open>rglob_json\<close>: what \<open>SBOM_ROOT.rglob("*.json")\<close> enumerates, in its order: for each
    path found, its parts below \<open>SBOM_ROOT\<close>, whether \<open>is_file()\<close> holds, and what opening and
    parsing it gives;
  \<^item> \<open>output_dir_exists\<close>: whether \<open>OUTPUT_DIR\<close> exists;
  \<^item> \<open>output_file\<close>: the content of \<open>OUTPUT_FILE\<close>, if the file exists;
  \<^item> \<open>stdout\<close>: the lines printed.
  Failures of \<open>mkdir\<close> and of writing the output file are not modelled.
\<close>

record world =
  root_exists :: bool
  rglob_json :: "(path \<times> bool \<times> read_result) list"
  output_dir_exists :: bool
  output_file :: "string option"
  stdout :: "string list"

text \<open>\<open>find_sbom_files\<close>: \<open>[p for p in root.rglob("*.json") if p.is_file()]\<close>\<close>

definition find_sbom_files :: "path \<Rightarrow> world \<Rightarrow> (path \<times> read_result) list" where
  "find_sbom_files root w =
     map (\<lambda>e. (root @ fst e, snd (snd e))) (filter (\<lambda>e. fst (snd e)) (rglob_json w))"

text \<open>
  The loop of lines 101 to 104 over \<open>sbom_files\<close>, with \<open>all_components\<close> as accumulator: the
  lines printed, and the list built or the exception that leaves the loop.
\<close>

fun file_loop ::
  "path \<Rightarrow> (path \<times> read_result) list \<Rightarrow> component_record list
     \<Rightarrow> string list \<times> (error + component_record list)" where
  "file_loop root [] all_components = ([], Inr all_components)"
| "file_loop root (sbom # sboms) all_components =
     (case extract_components_from_sbom root (fst sbom) (snd sbom) of
        (out, Inl e) \<Rightarrow> (out, Inl e)
      | (out, Inr comps) \<Rightarrow>
          (let line = ''[INFO] '' @ path_str (fst sbom) @ '': extracted ''
                      @ show_nat (length comps) @ '' components'';
               rest = file_loop root sboms (all_components @ comps)
           in (out @ [line] @ fst rest, snd rest)))"

text \<open>
  The sort of line 106. Its key is the tuple of three fields of the record. Where the three
  are strs in every record, Python orders the tuples lexicographically, each string by its
  code points, and \<open>list.sort\<close> is stable: that is \<open>sort_key\<close> on the triples of strings. Where
  a key field is not a str (a number, a list, \<open>null\<close>, ...), Python compares by that type's own
  order or raises \<open>TypeError\<close>, depending on which pairs the sort happens to compare; this is
  not modelled, and \<open>py_sort\<close> gives \<open>None\<close> there.
\<close>

fun str_value :: "json \<Rightarrow> string" where
  "str_value (JStr s) = s"
| "str_value v = []"

fun is_str :: "json \<Rightarrow> bool" where
  "is_str (JStr s) = True"
| "is_str v = False"

definition sort_key_of :: "component_record \<Rightarrow> string \<times> string \<times> string" where
  "sort_key_of x =
     (str_value (project_name x), str_value (component_name x), str_value (component_version x))"

definition str_keyed :: "component_record \<Rightarrow> bool" where
  "str_keyed x \<longleftrightarrow>
     is_str (project_name x) \<and> is_str (component_name x) \<and> is_str (component_version x)"

definition py_sort :: "component_record list \<Rightarrow> component_record list option" where
  "py_sort xs = (if list_all str_keyed xs then Some (sort_key sort_key_of xs) else None)"

text \<open>
  How a run ends: \<open>main\<close> returns (exit code 0), an exception leaves it (Python prints it and
  exits with code 1; so does \<open>SystemExit\<close> with a message), or the sort met a key that is not a
  str, where the model stops.
\<close>

datatype outcome = Returned | Raised error | SortNotModelled

fun exit_code :: "outcome \<Rightarrow> nat option" where
  "exit_code Returned = Some 0"
| "exit_code (Raised e) = Some 1"
| "exit_code SortNotModelled = None"

text \<open>\<open>main\<close>\<close>

definition main :: "config \<Rightarrow> world \<Rightarrow> outcome \<times> world" where
  "main cfg w =
     (let root = SBOM_ROOT cfg;
          w1 = w\<lparr>stdout := stdout w @
                 [''[DEBUG] __file__     = '' @ dunder_file cfg,
                  ''[DEBUG] BASE_DIR    = '' @ path_str (BASE_DIR cfg),
                  ''[DEBUG] SBOM_ROOT   = '' @ path_str root,
                  ''[DEBUG] OUTPUT_FILE = '' @ path_str (OUTPUT_FILE cfg)]\<rparr>
      in if \<not> root_exists w1
         then (Raised (SystemExit (''SBOM root directory does not exist: '' @ path_str root)), w1)
         else
           (let w2 = w1\<lparr>output_dir_exists := True\<rparr>;
                sbom_files = find_sbom_files root w2;
                w3 = w2\<lparr>stdout := stdout w2 @
                       [''[INFO] Found '' @ show_nat (length sbom_files)
                        @ '' SBOM file(s) under '' @ path_str root]\<rparr>;
                looped = file_loop root sbom_files [];
                w4 = w3\<lparr>stdout := stdout w3 @ fst looped\<rparr>
            in case snd looped of
                 Inl e \<Rightarrow> (Raised e, w4)
               | Inr all_components \<Rightarrow>
                   (case py_sort all_components of
                      None \<Rightarrow> (SortNotModelled, w4)
                    | Some sorted_components \<Rightarrow>
                        (Returned,
                         w4\<lparr>output_file := Some (json_dump sorted_components),
                            stdout := stdout w4 @
                              [''[INFO] Wrote '' @ show_nat (length sorted_components)
                               @ '' components to '' @ path_str (OUTPUT_FILE cfg)]\<rparr>))))"

section \<open>Notions of the specification\<close>

text \<open>
  The definitions of this section are not code of the program: they name what the
  statements below speak about.
\<close>

fun is_dict :: "json \<Rightarrow> bool" where
  "is_dict (JObj d) = True"
| "is_dict v = False"

text \<open>The entries of a value that is a list; any other value has none.\<close>

fun list_entries :: "json \<Rightarrow> json list" where
  "list_entries (JArr xs) = xs"
| "list_entries v = []"

text \<open>
  The identifier of a license entry, in the words of the specification: read the nested
  \<open>license\<close> value; if it is a mapping, take \<open>id\<close> if present and non-empty, else \<open>name\<close> if
  present and non-empty; otherwise there is none.
\<close>

definition license_identifier :: "json \<Rightarrow> json option" where
  "license_identifier entry =
     (case entry of
        JObj e \<Rightarrow>
          (case map_of e ''license'' of
             Some (JObj lic) \<Rightarrow>
               (case map_of lic ''id'' of
                  Some i \<Rightarrow>
                    if truthy i then Some i
                    else (case map_of lic ''name'' of
                            Some n \<Rightarrow> if truthy n then Some n else None
                          | None \<Rightarrow> None)
                | None \<Rightarrow>
                    (case map_of lic ''name'' of
                       Some n \<Rightarrow> if truthy n then Some n else None
                     | None \<Rightarrow> None))
           | _ \<Rightarrow> None)
      | _ \<Rightarrow> None)"

text \<open>The value the inner loop iterates: \<open>c.get("licenses", []) or []\<close>\<close>

definition licenses_value :: "(string \<times> json) list \<Rightarrow> json" where
  "licenses_value d = py_or (dict_get d ''licenses'' (JArr [])) (JArr [])"

text \<open>The field \<open>metadata.component.name\<close> of a document, where it is present.\<close>

definition metadata_component_name :: "json \<Rightarrow> json option" where
  "metadata_component_name data =
     (case data of
        JObj d \<Rightarrow>
          (case map_of d ''metadata'' of
             Some (JObj m) \<Rightarrow>
               (case map_of m ''component'' of
                  Some (JObj mc) \<Rightarrow> map_of mc ''name''
                | _ \<Rightarrow> None)
           | _ \<Rightarrow> None)
      | _ \<Rightarrow> None)"

text \<open>
  The project name in the words of the specification: the declared name if present and
  non-empty, otherwise the name derived from the path.
\<close>

definition project_name_of :: "path \<Rightarrow> path \<Rightarrow> json \<Rightarrow> json" where
  "project_name_of root f data =
     (case metadata_component_name data of
        Some v \<Rightarrow> if truthy v then v else JStr (infer_project_name_from_path root f)
      | None \<Rightarrow> JStr (infer_project_name_from_path root f))"

fun read_failed :: "read_result \<Rightarrow> bool" where
  "read_failed (ReadFailed e) = True"
| "read_failed (Parsed data) = False"

text \<open>What \<open>extract_components_from_sbom\<close> returns or raises for a discovered file.\<close>

definition extracted :: "path \<Rightarrow> path \<times> read_result \<Rightarrow> error + component_record list" where
  "extracted root sbom = snd (extract_components_from_sbom root (fst sbom) (snd sbom))"

text \<open>The files of a run, in discovery order, and what the loop over them aggregates.\<close>

definition discovered :: "config \<Rightarrow> world \<Rightarrow> (path \<times> read_result) list" where
  "discovered cfg w = find_sbom_files (SBOM_ROOT cfg) w"

definition aggregated :: "config \<Rightarrow> world \<Rightarrow> error + component_record list" where
  "aggregated cfg w = snd (file_loop (SBOM_ROOT cfg) (discovered cfg w) [])"

text \<open>
  The shape of a parsed document: it is an object, its \<open>metadata\<close> value (when present) is
  an object, every entry of its \<open>components\<close> list is an object, and every entry of the
  \<open>licenses\<close> list of each is an object.
\<close>

definition shape_ok :: "json \<Rightarrow> bool" where
  "shape_ok data =
     (case data of
        JObj d \<Rightarrow>
          (case map_of d ''metadata'' of None \<Rightarrow> True | Some m \<Rightarrow> is_dict m)
          \<and> list_all
                (\<lambda>c. case c of
                       JObj cd \<Rightarrow> list_all is_dict (list_entries (dict_get cd ''licenses'' (JArr [])))
                     | _ \<Rightarrow> False)
                (list_entries (dict_get d ''components'' (JArr [])))
      | _ \<Rightarrow> False)"

text \<open>The same world without the entries that could not be read or parsed.\<close>

definition without_failed :: "world \<Rightarrow> world" where
  "without_failed w =
     w\<lparr>rglob_json := filter (\<lambda>e. \<not> read_failed (snd (snd e))) (rglob_json w)\<rparr>"

text \<open>
  What a file system guarantees of an enumeration below the root: no entry is the root
  itself, and every name on a path is non-empty and contains no \<open>/\<close>.
\<close>

definition names_ok :: "world \<Rightarrow> bool" where
  "names_ok w =
     list_all (\<lambda>e. fst e \<noteq> [] \<and> list_all (\<lambda>s. s \<noteq> [] \<and> CHR ''/'' \<notin> set s) (fst e))
       (rglob_json w)"

section \<open>Example inputs\<close>

text \<open>
  Concrete runs at which the theorems below are instantiated: a script at
  \<open>/srv/dash/generate_components.py\<close>; a tree with two SBOM documents, a file that does not
  parse and a directory whose name ends in \<open>.json\<close>; and small trees for a missing root, an
  empty root, a document that is a JSON array, and a file name with a backslash.
\<close>

definition example_config :: config where
  "example_config = \<lparr> dunder_file = ''/srv/dash/generate_components.py'', BASE_DIR = [''srv'', ''dash''] \<rparr>"

definition alpha_doc :: json where
  "alpha_doc =
     JObj [(''components'',
            JArr [JObj [(''name'', JStr ''zlib''), (''version'', JStr ''1.3''),
                        (''licenses'',
                         JArr [JObj [(''license'', JObj [(''id'', JStr ''MIT'')])],
                               JObj [(''license'', JObj [(''name'', JStr ''Apache-2.0'')])]])],
                  JObj [(''name'', JStr ''abc'')]])]"

definition beta_doc :: json where
  "beta_doc =
     JObj [(''metadata'', JObj [(''component'', JObj [(''name'', JStr ''beta''), (''version'', JStr ''2.0'')])]),
           (''components'',
            JArr [JObj [(''name'', JStr ''zlib''), (''version'', JStr ''1.2''), (''licenses'', JNull)]])]"

definition example_world :: world where
  "example_world =
     \<lparr> root_exists = True,
       rglob_json = [([''teams'', ''alpha'', ''sbom.json''], True, Parsed alpha_doc),
                     ([''broken.json''], True, ReadFailed ''Expecting value: line 1 column 1 (char 0)''),
                     ([''old.json''], False, ReadFailed ''''),
                     ([''beta.json''], True, Parsed beta_doc)],
       output_dir_exists = False,
       output_file = None,
       stdout = [] \<rparr>"

definition array_world :: world where
  "array_world =
     \<lparr> root_exists = True,
       rglob_json = [([''list.json''], True, Parsed (JArr []))],
       output_dir_exists = True,
       output_file = Some ''[]'',
       stdout = [] \<rparr>"

definition beta_records :: "component_record list" where
  "beta_records =
     [\<lparr> project_name = JStr ''beta'', project_version = JStr ''2.0'', project_group = JStr [],
        sbom_path = ''beta.json'', component_name = JStr ''zlib'',
        component_version = JStr ''1.2'', component_group = JStr [],
        component_type = JStr [], purl = JStr [], licenses = [] \<rparr>]"

definition zlib_component :: "(string \<times> json) list" where
  "zlib_component =
     [(''name'', JStr ''zlib''), (''version'', JStr ''1.3''),
      (''licenses'',
       JArr [JObj [(''license'', JObj [(''id'', JStr ''MIT'')])],
             JObj [(''license'', JStr ''proprietary'')],
             JObj [(''license'', JObj [(''name'', JStr ''Apache-2.0'')])]])]"

definition alpha_records :: "component_record list" where
  "alpha_records =
     [\<lparr> project_name = JStr ''teams/alpha/sbom'', project_version = JStr [],
        project_group = JStr [], sbom_path = ''teams/alpha/sbom.json'',
        component_name = JStr ''zlib'', component_version = JStr ''1.3'',
        component_group = JStr [], component_type = JStr [], purl = JStr [],
        licenses = [JStr ''MIT'', JStr ''Apache-2.0''] \<rparr>,
      \<lparr> project_name = JStr ''teams/alpha/sbom'', project_version = JStr [],
        project_group = JStr [], sbom_path = ''teams/alpha/sbom.json'',
        component_name = JStr ''abc'', component_version = JStr [],
        component_group = JStr [], component_type = JStr [], purl = JStr [],
        licenses = [] \<rparr>]"

definition example_sorted :: "component_record list" where
  "example_sorted = beta_records @ rev alpha_records"

definition stale_world :: world where
  "stale_world = example_world\<lparr>output_file := Some ''stale'', stdout := [''earlier output'']\<rparr>"

definition missing_world :: world where
  "missing_world =
     \<lparr> root_exists = False, rglob_json = [], output_dir_exists = True,
       output_file = Some ''[]'', stdout = [] \<rparr>"

definition empty_world :: world where
  "empty_world =
     \<lparr> root_exists = True, rglob_json = [([''archive.json''], False, ReadFailed '''')],
       output_dir_exists = False, output_file = None, stdout = [] \<rparr>"

definition backslash_name :: string where
  "backslash_name = ''win'' @ [CHR 0x5C] @ ''sbom.json''"

definition backslash_world :: world where
  "backslash_world =
     \<lparr> root_exists = True,
       rglob_json =
         [([backslash_name], True,
           Parsed (JObj [(''components'', JArr [JObj [(''name'', JStr ''zlib'')]])]))],
       output_dir_exists = False, output_file = None, stdout = [] \<rparr>"

definition backslash_records :: "component_record list" where
  "backslash_records =
     [\<lparr> project_name = JStr (''win'' @ [CHR 0x5C] @ ''sbom''), project_version = JStr [],
        project_group = JStr [], sbom_path = backslash_name,
        component_name = JStr ''zlib'', component_version = JStr [],
        component_group = JStr [], component_type = JStr [], purl = JStr [],
        licenses = [] \<rparr>]"

section \<open>Properties of the loops\<close>

lemma relative_to_append: "relative_to (root @ rel) root = Some rel"
  by (induction root) simp_all

lemma license_loop_dicts:
  "list_all is_dict ls \<Longrightarrow>
   license_loop ls acc = Inr (acc @ List.map_filter license_identifier ls)"
proof (induction ls arbitrary: acc)
  case Nil
  then show ?case by simp
next
  case (Cons l ls)
  from Cons.prems obtain e where l: "l = JObj e" and rest: "list_all is_dict ls"
    by (cases l) simp_all
  show ?case
    using Cons.IH [OF rest]
    by (simp add: l license_identifier_def dict_get_def py_or_def
        split: option.splits json.splits)
qed

lemma license_loop_Inr_dicts:
  "license_loop ls acc = Inr res \<Longrightarrow> list_all is_dict ls"
proof (induction ls arbitrary: acc)
  case Nil
  then show ?case by simp
next
  case (Cons l ls)
  then show ?case
    by (cases l) (auto simp: Let_def split: json.splits if_splits)
qed

lemma license_loop_Inl:
  "license_loop ls acc = Inl e \<Longrightarrow> e = AttributeError"
proof (induction ls arbitrary: acc)
  case Nil
  then show ?case by simp
next
  case (Cons l ls)
  then show ?case
    by (cases l) (auto simp: Let_def split: json.splits if_splits)
qed

lemma extract_component_Inr_iff:
  "extract_component root (root @ rel) pn pv pg c = Inr r \<longleftrightarrow>
     (\<exists>d ls lics. c = JObj d \<and> py_iter (licenses_value d) = Inr ls
        \<and> license_loop ls [] = Inr lics
        \<and> r = \<lparr> project_name = pn, project_version = pv, project_group = pg,
                sbom_path = as_posix rel,
                component_name = dict_get d ''name'' (JStr []),
                component_version = dict_get d ''version'' (JStr []),
                component_group = dict_get d ''group'' (JStr []),
                component_type = dict_get d ''type'' (JStr []),
                purl = dict_get d ''purl'' (JStr []),
                licenses = lics \<rparr>)"
  by (cases c)
     (auto simp: extract_component_def licenses_value_def relative_to_append Let_def
           split: sum.splits)

lemma extract_component_Inl:
  "extract_component root (root @ rel) pn pv pg c = Inl e \<Longrightarrow>
     e = AttributeError \<or> e = TypeError"
proof (cases c)
  case (JObj d)
  assume "extract_component root (root @ rel) pn pv pg c = Inl e"
  then show ?thesis
    unfolding JObj extract_component_def Let_def
    by (cases "py_or (dict_get d ''licenses'' (JArr [])) (JArr [])")
       (auto simp: relative_to_append split: sum.splits dest: license_loop_Inl)
qed (auto simp: extract_component_def)

lemma component_loop_Inr_iff:
  "component_loop root f pn pv pg cs results = Inr res \<longleftrightarrow>
     (\<exists>rs. list_all2 (\<lambda>c r. extract_component root f pn pv pg c = Inr r) cs rs
        \<and> res = results @ rs)"
proof (induction cs arbitrary: results)
  case Nil
  then show ?case by auto
next
  case (Cons c cs)
  show ?case
  proof (cases "extract_component root f pn pv pg c")
    case (Inl e)
    then show ?thesis by (auto simp: list_all2_Cons1)
  next
    case (Inr r)
    then show ?thesis by (auto simp: Cons.IH list_all2_Cons1)
  qed
qed

lemma component_loop_Inl:
  "component_loop root f pn pv pg cs results = Inl e \<Longrightarrow>
     \<exists>c \<in> set cs. extract_component root f pn pv pg c = Inl e"
proof (induction cs arbitrary: results)
  case Nil
  then show ?case by simp
next
  case (Cons c cs)
  then show ?case
    by (cases "extract_component root f pn pv pg c") auto
qed

lemma extract_parsed_Inr_iff:
  "extract_parsed root f data = Inr rs \<longleftrightarrow>
     (\<exists>d m mc cs. data = JObj d
        \<and> dict_get d ''metadata'' (JObj []) = JObj m
        \<and> dict_get m ''component'' (JObj []) = JObj mc
        \<and> py_iter (dict_get d ''components'' (JArr [])) = Inr cs
        \<and> list_all2 (\<lambda>c r. extract_component root f
               (py_or (dict_get mc ''name'' JNull) (JStr (infer_project_name_from_path root f)))
               (dict_get mc ''version'' (JStr [])) (dict_get mc ''group'' (JStr [])) c = Inr r)
             cs rs)"
proof (cases data)
  case (JObj d)
  show ?thesis
  proof (cases "dict_get d ''metadata'' (JObj [])")
    case m: (JObj m)
    show ?thesis
    proof (cases "dict_get m ''component'' (JObj [])")
      case mc: (JObj mc)
      show ?thesis
        by (simp add: JObj m mc extract_parsed_def Let_def component_loop_Inr_iff
            split: sum.splits)
    qed (simp_all add: JObj m extract_parsed_def)
  qed (simp_all add: JObj extract_parsed_def)
qed (simp_all add: extract_parsed_def)

lemma project_name_of_eq:
  assumes "data = JObj d" "dict_get d ''metadata'' (JObj []) = JObj m"
    "dict_get m ''component'' (JObj []) = JObj mc"
  shows "py_or (dict_get mc ''name'' JNull) (JStr (infer_project_name_from_path root f))
         = project_name_of root f data"
  using assms
  by (auto simp: project_name_of_def metadata_component_name_def dict_get_def py_or_def
      split: option.splits json.splits)

lemma file_loop_Inr_iff:
  "snd (file_loop root fs acc) = Inr res \<longleftrightarrow>
     (\<exists>rss. list_all2 (\<lambda>f rs. extracted root f = Inr rs) fs rss \<and> res = acc @ concat rss)"
proof (induction fs arbitrary: acc)
  case Nil
  then show ?case by auto
next
  case (Cons f fs)
  obtain out r where ex: "extract_components_from_sbom root (fst f) (snd f) = (out, r)"
    by (cases "extract_components_from_sbom root (fst f) (snd f)")
  show ?case
  proof (cases r)
    case (Inl e)
    then show ?thesis using ex by (auto simp: extracted_def list_all2_Cons1)
  next
    case (Inr comps)
    then show ?thesis
      using ex by (auto simp: extracted_def Let_def Cons.IH list_all2_Cons1)
  qed
qed

lemma file_loop_Inl:
  "snd (file_loop root fs acc) = Inl e \<Longrightarrow> \<exists>f \<in> set fs. extracted root f = Inl e"
proof (induction fs arbitrary: acc)
  case Nil
  then show ?case by simp
next
  case (Cons f fs)
  obtain out r where ex: "extract_components_from_sbom root (fst f) (snd f) = (out, r)"
    by (cases "extract_components_from_sbom root (fst f) (snd f)")
  show ?case
  proof (cases r)
    case (Inl e')
    then show ?thesis using ex Cons.prems by (auto simp: extracted_def)
  next
    case (Inr comps)
    then show ?thesis
      using ex Cons.prems Cons.IH [of "acc @ comps"] by (auto simp: extracted_def Let_def)
  qed
qed

lemma file_loop_raises:
  "f \<in> set fs \<Longrightarrow> extracted root f = Inl e \<Longrightarrow> \<exists>e'. snd (file_loop root fs acc) = Inl e'"
proof (induction fs arbitrary: acc)
  case Nil
  then show ?case by simp
next
  case (Cons g fs)
  obtain out r where ex: "extract_components_from_sbom root (fst g) (snd g) = (out, r)"
    by (cases "extract_components_from_sbom root (fst g) (snd g)")
  show ?case
  proof (cases r)
    case (Inl e')
    then show ?thesis using ex by auto
  next
    case (Inr comps)
    with ex Cons.prems have "f \<in> set fs" by (auto simp: extracted_def)
    from Cons.IH [OF this Cons.prems(2), of "acc @ comps"] show ?thesis
      using ex Inr by (auto simp: Let_def)
  qed
qed

lemma extracted_failed: "read_failed (snd f) \<Longrightarrow> extracted root f = Inr []"
  by (cases "snd f") (simp_all add: extracted_def extract_components_from_sbom_def)

lemma file_loop_skip_failed:
  "snd (file_loop root (filter (\<lambda>f. \<not> read_failed (snd f)) fs) acc) = snd (file_loop root fs acc)"
proof (induction fs arbitrary: acc)
  case Nil
  then show ?case by simp
next
  case (Cons f fs)
  show ?case
  proof (cases "snd f")
    case (ReadFailed e)
    then show ?thesis
      using Cons.IH [of acc] by (simp add: extract_components_from_sbom_def Let_def)
  next
    case (Parsed data)
    then show ?thesis
      using Cons.IH by (simp add: Let_def split: prod.splits sum.splits)
  qed
qed

lemma file_loop_warns:
  "f \<in> set fs \<Longrightarrow> snd f = ReadFailed e \<Longrightarrow> snd (file_loop root fs acc) = Inr res \<Longrightarrow>
     (''[WARN] Failed to read SBOM '' @ path_str (fst f) @ '': '' @ e)
       \<in> set (fst (file_loop root fs acc))"
proof (induction fs arbitrary: acc)
  case Nil
  then show ?case by simp
next
  case (Cons g fs)
  obtain out r where ex: "extract_components_from_sbom root (fst g) (snd g) = (out, r)"
    by (cases "extract_components_from_sbom root (fst g) (snd g)")
  show ?case
  proof (cases r)
    case (Inl e')
    then show ?thesis using ex Cons.prems by auto
  next
    case (Inr comps)
    have rest: "snd (file_loop root fs (acc @ comps)) = Inr res"
      using ex Inr Cons.prems(3) by (simp add: Let_def)
    show ?thesis
    proof (cases "f = g")
      case True
      then show ?thesis
        using ex Inr Cons.prems(2) by (auto simp: extract_components_from_sbom_def Let_def)
    next
      case False
      with Cons.prems have "f \<in> set fs" by simp
      from Cons.IH [OF this Cons.prems(2) rest] show ?thesis
        using ex Inr by (simp add: Let_def)
    qed
  qed
qed

lemma find_sbom_files_inputs:
  "rglob_json w = rglob_json w' \<Longrightarrow> find_sbom_files root w = find_sbom_files root w'"
  by (simp add: find_sbom_files_def)

lemma main_outcome:
  "fst (main cfg w) =
     (if \<not> root_exists w
      then Raised (SystemExit (''SBOM root directory does not exist: '' @ path_str (SBOM_ROOT cfg)))
      else case aggregated cfg w of
             Inl e \<Rightarrow> Raised e
           | Inr all_components \<Rightarrow>
               (case py_sort all_components of None \<Rightarrow> SortNotModelled | Some s \<Rightarrow> Returned))"
  by (simp add: main_def Let_def aggregated_def discovered_def find_sbom_files_def
      split: sum.splits option.splits)

lemma main_output_file:
  "output_file (snd (main cfg w)) =
     (if \<not> root_exists w then output_file w
      else case aggregated cfg w of
             Inl e \<Rightarrow> output_file w
           | Inr all_components \<Rightarrow>
               (case py_sort all_components of
                  None \<Rightarrow> output_file w
                | Some s \<Rightarrow> Some (json_dump s)))"
  by (simp add: main_def Let_def aggregated_def discovered_def find_sbom_files_def
      split: sum.splits option.splits)

lemma main_inputs:
  "root_exists (snd (main cfg w)) = root_exists w"
  "rglob_json (snd (main cfg w)) = rglob_json w"
  by (simp_all add: main_def Let_def split: sum.splits option.splits)

lemma main_stdout:
  "root_exists w \<Longrightarrow> aggregated cfg w = Inr all_components \<Longrightarrow>
     set (fst (file_loop (SBOM_ROOT cfg) (discovered cfg w) [])) \<subseteq> set (stdout (snd (main cfg w)))"
  by (auto simp: main_def Let_def aggregated_def discovered_def find_sbom_files_def
      split: sum.splits option.splits)

lemma extract_component_Inr_shape:
  assumes "extract_component root f pn pv pg c = Inr r"
  shows "\<exists>d. c = JObj d \<and> list_all is_dict (list_entries (dict_get d ''licenses'' (JArr [])))"
proof (cases c)
  case (JObj d)
  show ?thesis
  proof (cases "dict_get d ''licenses'' (JArr [])")
    case (JArr ls)
    have "list_all is_dict ls"
    proof (cases "ls = []")
      case True
      then show ?thesis by simp
    next
      case False
      with assms JObj JArr obtain lics where "license_loop ls [] = Inr lics"
        by (auto simp: extract_component_def Let_def py_or_def split: sum.splits)
      then show ?thesis by (rule license_loop_Inr_dicts)
    qed
    with JObj JArr show ?thesis by simp
  qed (simp_all add: JObj)
qed (use assms in \<open>simp_all add: extract_component_def\<close>)

lemma extract_parsed_Inr_shape:
  assumes "extract_parsed root f data = Inr rs"
  shows "shape_ok data"
proof -
  from assms obtain d m mc cs pn pv pg where
    d: "data = JObj d" and m: "dict_get d ''metadata'' (JObj []) = JObj m"
    and cs: "py_iter (dict_get d ''components'' (JArr [])) = Inr cs"
    and all: "list_all2 (\<lambda>c r. extract_component root f pn pv pg c = Inr r) cs rs"
    unfolding extract_parsed_Inr_iff by blast
  have meta: "case map_of d ''metadata'' of None \<Rightarrow> True | Some v \<Rightarrow> is_dict v"
    using m by (auto simp: dict_get_def split: option.splits)
  have each: "\<exists>cd. c = JObj cd
                \<and> list_all is_dict (list_entries (dict_get cd ''licenses'' (JArr [])))"
    if "c \<in> set cs" for c
  proof -
    from that all obtain r where "extract_component root f pn pv pg c = Inr r"
      by (auto simp: list_all2_conv_all_nth in_set_conv_nth)
    then show ?thesis by (rule extract_component_Inr_shape)
  qed
  have sub: "set (list_entries (dict_get d ''components'' (JArr []))) \<subseteq> set cs"
    using cs by (cases "dict_get d ''components'' (JArr [])") auto
  have "case c of
          JObj cd \<Rightarrow> list_all is_dict (list_entries (dict_get cd ''licenses'' (JArr [])))
        | _ \<Rightarrow> False"
    if "c \<in> set (list_entries (dict_get d ''components'' (JArr [])))" for c
  proof -
    from that sub have "c \<in> set cs" by blast
    from each [OF this] show ?thesis by auto
  qed
  then have "list_all
          (\<lambda>c. case c of
                 JObj cd \<Rightarrow> list_all is_dict (list_entries (dict_get cd ''licenses'' (JArr [])))
               | _ \<Rightarrow> False)
          (list_entries (dict_get d ''components'' (JArr [])))"
    by (simp only: list_all_iff) blast
  with meta show ?thesis by (simp add: shape_ok_def d)
qed

lemma extract_parsed_Inl:
  assumes "extract_parsed root (root @ rel) data = Inl e"
  shows "e = AttributeError \<or> e = TypeError"
proof (cases data)
  case (JObj d)
  show ?thesis
  proof (cases "dict_get d ''metadata'' (JObj [])")
    case m: (JObj m)
    show ?thesis
    proof (cases "dict_get m ''component'' (JObj [])")
      case mc: (JObj mc)
      show ?thesis
      proof (cases "py_iter (dict_get d ''components'' (JArr []))")
        case (Inl e')
        then have "e' = TypeError"
          by (cases "dict_get d ''components'' (JArr [])") auto
        with assms Inl show ?thesis
          by (simp add: JObj m mc extract_parsed_def Let_def)
      next
        case (Inr cs)
        with assms obtain c pn pv pg where
          "extract_component root (root @ rel) pn pv pg c = Inl e"
          by (auto simp: JObj m mc extract_parsed_def Let_def dest: component_loop_Inl)
        then show ?thesis by (rule extract_component_Inl)
      qed
    qed (use assms in \<open>simp_all add: JObj m extract_parsed_def\<close>)
  qed (use assms in \<open>simp_all add: JObj extract_parsed_def\<close>)
qed (use assms in \<open>simp_all add: extract_parsed_def\<close>)

lemma extracted_Inl:
  assumes "extracted root (root @ rel, rd) = Inl e"
  shows "(\<exists>data. rd = Parsed data) \<and> (e = AttributeError \<or> e = TypeError)"
proof (cases rd)
  case (ReadFailed msg)
  with assms show ?thesis by (simp add: extracted_def extract_components_from_sbom_def)
next
  case (Parsed data)
  with assms have "extract_parsed root (root @ rel) data = Inl e"
    by (simp add: extracted_def extract_components_from_sbom_def)
  from extract_parsed_Inl [OF this] Parsed show ?thesis by simp
qed

lemma discovered_iff:
  "f \<in> set (discovered cfg w) \<longleftrightarrow>
     (\<exists>rel rd. (rel, True, rd) \<in> set (rglob_json w) \<and> f = (SBOM_ROOT cfg @ rel, rd))"
  by (force simp: discovered_def find_sbom_files_def image_iff)

lemma aggregated_Inl:
  assumes "aggregated cfg w = Inl e"
  shows "e = AttributeError \<or> e = TypeError"
proof -
  from assms obtain f where f: "f \<in> set (discovered cfg w)"
    and ex: "extracted (SBOM_ROOT cfg) f = Inl e"
    unfolding aggregated_def by (blast dest: file_loop_Inl)
  from f obtain rel rd where "f = (SBOM_ROOT cfg @ rel, rd)"
    unfolding discovered_iff by blast
  with ex show ?thesis by (auto dest: extracted_Inl)
qed

lemma ill_shaped_raises:
  assumes "(rel, True, Parsed data) \<in> set (rglob_json w)" "\<not> shape_ok data"
  shows "\<exists>e. aggregated cfg w = Inl e"
proof -
  have f: "(SBOM_ROOT cfg @ rel, Parsed data) \<in> set (discovered cfg w)"
    using assms(1) unfolding discovered_iff by blast
  obtain e where "extract_parsed (SBOM_ROOT cfg) (SBOM_ROOT cfg @ rel) data = Inl e"
    using assms(2) extract_parsed_Inr_shape
    by (cases "extract_parsed (SBOM_ROOT cfg) (SBOM_ROOT cfg @ rel) data") auto
  then have "extracted (SBOM_ROOT cfg) (SBOM_ROOT cfg @ rel, Parsed data) = Inl e"
    by (simp add: extracted_def extract_components_from_sbom_def)
  from file_loop_raises [OF f this] show ?thesis
    by (simp add: aggregated_def)
qed

lemma licenses_value_list:
  "dict_get d ''licenses'' (JArr []) = JArr ls \<Longrightarrow> py_iter (licenses_value d) = Inr ls"
  by (cases "ls = []") (simp_all add: licenses_value_def py_or_def)

lemma licenses_value_falsy:
  "\<not> truthy (dict_get d ''licenses'' (JArr [])) \<Longrightarrow> py_iter (licenses_value d) = Inr []"
  by (simp add: licenses_value_def py_or_def)

lemma rfind_append:
  "rfind c (xs @ ys) =
     (case rfind c ys of Some i \<Rightarrow> Some (length xs + i) | None \<Rightarrow> rfind c xs)"
  by (induction xs) (auto split: option.splits)

lemma stem_json: "base \<noteq> [] \<Longrightarrow> stem (base @ ''.json'') = base"
  by (simp add: stem_def rfind_append)

lemma infer_below_root:
  "rel \<noteq> [] \<Longrightarrow>
     infer_project_name_from_path root (root @ rel) = str_join ''/'' (butlast rel @ [stem (last rel)])"
  by (simp add: infer_project_name_from_path_def relative_to_append)

lemma extract_parsed_project_name:
  assumes "extract_parsed root f data = Inr rs" and "r \<in> set rs"
  shows "project_name r = project_name_of root f data"
proof -
  from assms(1) obtain d m mc cs where
    d: "data = JObj d" and m: "dict_get d ''metadata'' (JObj []) = JObj m"
    and mc: "dict_get m ''component'' (JObj []) = JObj mc"
    and all: "list_all2 (\<lambda>c r. extract_component root f
               (py_or (dict_get mc ''name'' JNull) (JStr (infer_project_name_from_path root f)))
               (dict_get mc ''version'' (JStr [])) (dict_get mc ''group'' (JStr [])) c = Inr r)
             cs rs"
    unfolding extract_parsed_Inr_iff by blast
  from all assms(2) obtain c where
    "extract_component root f
       (py_or (dict_get mc ''name'' JNull) (JStr (infer_project_name_from_path root f)))
       (dict_get mc ''version'' (JStr [])) (dict_get mc ''group'' (JStr [])) c = Inr r"
    by (auto simp: list_all2_conv_all_nth in_set_conv_nth)
  then have "project_name r =
      py_or (dict_get mc ''name'' JNull) (JStr (infer_project_name_from_path root f))"
    by (auto simp: extract_component_def Let_def split: json.splits sum.splits option.splits)
  with project_name_of_eq [OF d m mc] show ?thesis by simp
qed

lemma py_sort_Some:
  "py_sort xs = Some ys \<longleftrightarrow> list_all str_keyed xs \<and> ys = sort_key sort_key_of xs"
  by (auto simp: py_sort_def)

lemma sort_key_of_le:
  "sort_key_of x \<le> sort_key_of y \<longleftrightarrow>
     str_value (project_name x) < str_value (project_name y)
     \<or> str_value (project_name x) = str_value (project_name y)
       \<and> (str_value (component_name x) < str_value (component_name y)
          \<or> str_value (component_name x) = str_value (component_name y)
            \<and> str_value (component_version x) \<le> str_value (component_version y))"
  by (auto simp: sort_key_of_def less_eq_prod_def)

lemma main_Returned:
  assumes "fst (main cfg w) = Returned"
  shows "root_exists w \<and> (\<exists>all_components. aggregated cfg w = Inr all_components
           \<and> list_all str_keyed all_components
           \<and> output_file (snd (main cfg w))
               = Some (json_dump (sort_key sort_key_of all_components)))"
proof -
  from assms have r: "root_exists w"
    by (simp add: main_outcome split: if_splits)
  with assms obtain a s where a: "aggregated cfg w = Inr a" and s: "py_sort a = Some s"
    by (auto simp: main_outcome split: sum.splits option.splits)
  from r a s have "output_file (snd (main cfg w)) = Some (json_dump s)"
    by (simp add: main_output_file)
  with r a s show ?thesis by (auto simp: py_sort_Some)
qed

text \<open>Facts about the example run.\<close>

lemma example_aggregated:
  "aggregated example_config example_world = Inr (alpha_records @ beta_records)"
  by code_simp

lemma example_root_exists: "root_exists example_world"
  by (simp add: example_world_def)

lemma example_keyed: "list_all str_keyed alpha_records" "list_all str_keyed beta_records"
  by code_simp+

lemma example_returned: "fst (main example_config example_world) = Returned"
  by (simp add: main_outcome example_root_exists example_aggregated py_sort_def example_keyed)

lemma discovered_without_failed:
  "discovered cfg (without_failed w) = filter (\<lambda>f. \<not> read_failed (snd f)) (discovered cfg w)"
  by (simp add: discovered_def find_sbom_files_def without_failed_def filter_map comp_def
      conj_commute)

lemma aggregated_without_failed: "aggregated cfg (without_failed w) = aggregated cfg w"
  by (simp add: aggregated_def discovered_without_failed file_loop_skip_failed)

lemma without_failed_fields:
  "root_exists (without_failed w) = root_exists w"
  "output_file (without_failed w) = output_file w"
  by (simp_all add: without_failed_def)

lemma file_loop_all_ok:
  assumes "\<forall>f \<in> set fs. \<exists>rs. extracted root f = Inr rs \<and> list_all str_keyed rs"
    and "list_all str_keyed acc"
  shows "\<exists>res. snd (file_loop root fs acc) = Inr res \<and> list_all str_keyed res"
  using assms
proof (induction fs arbitrary: acc)
  case Nil
  then show ?case by simp
next
  case (Cons f fs)
  from Cons.prems(1) obtain rs where rs: "extracted root f = Inr rs" and k: "list_all str_keyed rs"
    by auto
  from Cons.prems(1) have rest: "\<forall>g \<in> set fs. \<exists>rs. extracted root g = Inr rs \<and> list_all str_keyed rs"
    by simp
  from k Cons.prems(2) have "list_all str_keyed (acc @ rs)" by simp
  from Cons.IH [OF rest this] show ?case
    using rs by (auto simp: extracted_def Let_def split: prod.splits)
qed

lemma main_warns:
  assumes "fst (main cfg w) = Returned" and "(rel, True, ReadFailed e) \<in> set (rglob_json w)"
  shows "(''[WARN] Failed to read SBOM '' @ path_str (SBOM_ROOT cfg @ rel) @ '': '' @ e)
           \<in> set (stdout (snd (main cfg w)))"
proof -
  from main_Returned [OF assms(1)] obtain a where r: "root_exists w"
    and a: "aggregated cfg w = Inr a" by blast
  have f: "(SBOM_ROOT cfg @ rel, ReadFailed e) \<in> set (discovered cfg w)"
    using assms(2) unfolding discovered_iff by blast
  from a have "snd (file_loop (SBOM_ROOT cfg) (discovered cfg w) []) = Inr a"
    by (simp add: aggregated_def)
  from file_loop_warns [OF f _ this, of e] main_stdout [OF r a] show ?thesis by auto
qed

lemma example_root: "SBOM_ROOT example_config = [''srv'', ''dash'', ''sboms'']"
  by (simp add: example_config_def SBOM_ROOT_def)

lemma example_discovered:
  "discovered example_config example_world =
     [([''srv'', ''dash'', ''sboms'', ''teams'', ''alpha'', ''sbom.json''], Parsed alpha_doc),
      ([''srv'', ''dash'', ''sboms'', ''broken.json''],
       ReadFailed ''Expecting value: line 1 column 1 (char 0)''),
      ([''srv'', ''dash'', ''sboms'', ''beta.json''], Parsed beta_doc)]"
  by (simp add: discovered_def find_sbom_files_def example_world_def example_root)

lemma example_extracted:
  "extracted [''srv'', ''dash'', ''sboms'']
     ([''srv'', ''dash'', ''sboms'', ''teams'', ''alpha'', ''sbom.json''], Parsed alpha_doc)
     = Inr alpha_records"
  "extracted [''srv'', ''dash'', ''sboms'']
     ([''srv'', ''dash'', ''sboms'', ''beta.json''], Parsed beta_doc) = Inr beta_records"
  by code_simp+

lemma main_Raised:
  assumes "root_exists w" and "exit_code (fst (main cfg w)) = Some 1"
  shows "output_file (snd (main cfg w)) = output_file w
         \<and> (\<exists>rel data e. (rel, True, Parsed data) \<in> set (rglob_json w)
               \<and> extract_parsed (SBOM_ROOT cfg) (SBOM_ROOT cfg @ rel) data = Inl e
               \<and> (e = AttributeError \<or> e = TypeError)
               \<and> fst (main cfg w) = Raised e)"
proof -
  from assms obtain e where e: "aggregated cfg w = Inl e"
    by (auto simp: main_outcome split: sum.splits option.splits)
  with assms(1) have o: "fst (main cfg w) = Raised e"
    and f: "output_file (snd (main cfg w)) = output_file w"
    by (simp_all add: main_outcome main_output_file)
  from e obtain g where g: "g \<in> set (discovered cfg w)"
    and x: "extracted (SBOM_ROOT cfg) g = Inl e"
    unfolding aggregated_def by (blast dest: file_loop_Inl)
  from g obtain rel rd where m: "(rel, True, rd) \<in> set (rglob_json w)"
    and geq: "g = (SBOM_ROOT cfg @ rel, rd)"
    unfolding discovered_iff by blast
  from x geq extracted_Inl [of "SBOM_ROOT cfg" rel rd e] obtain data where
    d: "rd = Parsed data" and k: "e = AttributeError \<or> e = TypeError"
    by auto
  from x geq d have "extract_parsed (SBOM_ROOT cfg) (SBOM_ROOT cfg @ rel) data = Inl e"
    by (simp add: extracted_def extract_components_from_sbom_def)
  with m d k o f show ?thesis by blast
qed

lemma array_aggregated: "aggregated example_config array_world = Inl AttributeError"
  by code_simp

lemma set_str_join:
  "set (str_join sep xs) = \<Union> (set ` set xs) \<union> (if 1 < length xs then set sep else {})"
  by (induction sep xs rule: str_join.induct) auto

lemma backslash_in_joined:
  "CHR 0x5C \<in> set (str_join ''/'' rel) \<longleftrightarrow> (\<exists>s \<in> set rel. CHR 0x5C \<in> set s)"
  by (auto simp: set_str_join split: if_splits)

lemma hd_str_join:
  "xs \<noteq> [] \<Longrightarrow> hd xs \<noteq> [] \<Longrightarrow>
     str_join sep xs \<noteq> [] \<and> hd (str_join sep xs) = hd (hd xs)"
  by (induction sep xs rule: str_join.induct) auto

lemma list_all2_member:
  "list_all2 P xs ys \<Longrightarrow> y \<in> set ys \<Longrightarrow> \<exists>x \<in> set xs. P x y"
  by (induction rule: list_all2_induct) auto

lemma extracted_sbom_path:
  assumes "extracted root (root @ rel, rd) = Inr rs" and "r \<in> set rs"
  shows "sbom_path r = as_posix rel"
proof (cases rd)
  case (ReadFailed msg)
  with assms show ?thesis by (simp add: extracted_def extract_components_from_sbom_def)
next
  case (Parsed data)
  with assms(1) have "extract_parsed root (root @ rel) data = Inr rs"
    by (simp add: extracted_def extract_components_from_sbom_def)
  then obtain cs pn pv pg where
    "list_all2 (\<lambda>c r. extract_component root (root @ rel) pn pv pg c = Inr r) cs rs"
    unfolding extract_parsed_Inr_iff by blast
  from list_all2_member [OF this assms(2)] obtain c where
    "extract_component root (root @ rel) pn pv pg c = Inr r" by blast
  then show ?thesis unfolding extract_component_Inr_iff by auto
qed

lemma aggregated_member:
  assumes "aggregated cfg w = Inr a" and "r \<in> set a"
  shows "\<exists>rel rd rs. (rel, True, rd) \<in> set (rglob_json w)
           \<and> extracted (SBOM_ROOT cfg) (SBOM_ROOT cfg @ rel, rd) = Inr rs \<and> r \<in> set rs"
proof -
  from assms(1) obtain rss where
    rss: "list_all2 (\<lambda>f rs. extracted (SBOM_ROOT cfg) f = Inr rs) (discovered cfg w) rss"
    and a: "a = concat rss"
    unfolding aggregated_def file_loop_Inr_iff by auto
  from assms(2) a obtain rs where rs: "rs \<in> set rss" and r: "r \<in> set rs" by auto
  from list_all2_member [OF rss rs] obtain f where
    f: "f \<in> set (discovered cfg w)" and x: "extracted (SBOM_ROOT cfg) f = Inr rs" by blast
  from f obtain rel rd where "(rel, True, rd) \<in> set (rglob_json w)"
    and "f = (SBOM_ROOT cfg @ rel, rd)"
    unfolding discovered_iff by blast
  with x r show ?thesis by blast
qed

lemma backslash_aggregated: "aggregated example_config backslash_world = Inr backslash_records"
  by code_simp

section \<open>The claims\<close>

text \<open>
  C9: Extraction completes without raising only when the parsed document has the expected
  shape (\<open>shape_ok\<close>: the document is an object, its metadata value, when present, is an
  object, every entry of the components list is an object, and so is every entry of each
  licenses list). A discovered file that parses to a document of another shape makes the
  whole run end with an uncaught \<open>AttributeError\<close> or \<open>TypeError\<close>, that is with exit code 1,
  and the output file is not written.
\<close>

theorem extraction_completes_only_on_expected_shape:
  "(extract_parsed root f data = Inr rs \<longrightarrow> shape_ok data)
   \<and> (root_exists w \<and> (rel, True, Parsed data') \<in> set (rglob_json w) \<and> \<not> shape_ok data' \<longrightarrow>
        (fst (main cfg w) = Raised AttributeError \<or> fst (main cfg w) = Raised TypeError)
        \<and> exit_code (fst (main cfg w)) = Some 1
        \<and> output_file (snd (main cfg w)) = output_file w)"
proof (intro conjI impI)
  assume "extract_parsed root f data = Inr rs"
  then show "shape_ok data" by (rule extract_parsed_Inr_shape)
next
  assume a: "root_exists w \<and> (rel, True, Parsed data') \<in> set (rglob_json w) \<and> \<not> shape_ok data'"
  then obtain e where e: "aggregated cfg w = Inl e"
    using ill_shaped_raises by blast
  from aggregated_Inl [OF e] have k: "e = AttributeError \<or> e = TypeError" .
  from a e have o: "fst (main cfg w) = Raised e" by (simp add: main_outcome)
  from o k show "fst (main cfg w) = Raised AttributeError \<or> fst (main cfg w) = Raised TypeError"
    by auto
  from o show "exit_code (fst (main cfg w)) = Some 1" by simp
  from a e show "output_file (snd (main cfg w)) = output_file w" by (simp add: main_output_file)
qed

theorem extraction_completes_only_on_expected_shape_witness:
  "extract_parsed [''srv'', ''dash'', ''sboms''] [''srv'', ''dash'', ''sboms'', ''beta.json'']
       beta_doc = Inr beta_records
   \<and> shape_ok beta_doc
   \<and> root_exists array_world
   \<and> ([''list.json''], True, Parsed (JArr [])) \<in> set (rglob_json array_world)
   \<and> \<not> shape_ok (JArr [])
   \<and> exit_code (fst (main example_config array_world)) = Some 1
   \<and> output_file (snd (main example_config array_world)) = Some ''[]''"
proof -
  have ok: "extract_parsed [''srv'', ''dash'', ''sboms'']
      [''srv'', ''dash'', ''sboms'', ''beta.json''] beta_doc = Inr beta_records"
    by code_simp
  have bad: "root_exists array_world
      \<and> ([''list.json''], True, Parsed (JArr [])) \<in> set (rglob_json array_world)
      \<and> \<not> shape_ok (JArr [])"
    by (simp add: array_world_def shape_ok_def)
  have before: "output_file array_world = Some ''[]''"
    by (simp add: array_world_def)
  note inst = extraction_completes_only_on_expected_shape
    [of "[''srv'', ''dash'', ''sboms'']" "[''srv'', ''dash'', ''sboms'', ''beta.json'']" beta_doc
        beta_records array_world "[''list.json'']" "JArr []" example_config]
  from inst ok have "shape_ok beta_doc" by blast
  moreover from inst bad have "exit_code (fst (main example_config array_world)) = Some 1
      \<and> output_file (snd (main example_config array_world)) = output_file array_world"
    by blast
  ultimately show ?thesis using ok bad before by auto
qed

text \<open>
  C2: For a component object whose \<open>licenses\<close> value is a list of objects, extraction (of a
  file below the SBOM root) does not raise, and the \<open>licenses\<close> of its record are the identifiers of the entries in source order,
  where the identifier of an entry (\<open>license_identifier\<close>) is read from the nested \<open>license\<close>
  value: if that value is a mapping, its \<open>id\<close> if present and non-empty, else its \<open>name\<close> if
  present and non-empty; an entry whose \<open>license\<close> value is no mapping, or that gives no
  identifier, contributes nothing. The witness is the example of the specification: an entry
  with \<open>license.id = "MIT"\<close> and one with only \<open>license.name = "Apache-2.0"\<close> give
  \<open>["MIT", "Apache-2.0"]\<close>, also with an entry between them whose \<open>license\<close> is a string.
\<close>

theorem licenses_in_source_order:
  assumes "dict_get d ''licenses'' (JArr []) = JArr ls" and "list_all is_dict ls"
  shows "\<exists>r. extract_component root (root @ rel) pn pv pg (JObj d) = Inr r
           \<and> licenses r = List.map_filter license_identifier ls"
  using licenses_value_list [OF assms(1)] license_loop_dicts [OF assms(2), of "[]"]
  by (simp add: extract_component_Inr_iff)

theorem licenses_in_source_order_witness:
  "dict_get zlib_component ''licenses'' (JArr []) =
     JArr [JObj [(''license'', JObj [(''id'', JStr ''MIT'')])],
           JObj [(''license'', JStr ''proprietary'')],
           JObj [(''license'', JObj [(''name'', JStr ''Apache-2.0'')])]]
   \<and> (\<exists>r. extract_component [''srv'', ''sboms''] ([''srv'', ''sboms''] @ [''a.json''])
              (JStr ''p'') (JStr []) (JStr []) (JObj zlib_component) = Inr r
          \<and> licenses r = [JStr ''MIT'', JStr ''Apache-2.0''])"
proof -
  let ?ls = "[JObj [(''license'', JObj [(''id'', JStr ''MIT'')])],
              JObj [(''license'', JStr ''proprietary'')],
              JObj [(''license'', JObj [(''name'', JStr ''Apache-2.0'')])]]"
  have l: "dict_get zlib_component ''licenses'' (JArr []) = JArr ?ls"
    by (simp add: zlib_component_def dict_get_def)
  have d: "list_all is_dict ?ls" by simp
  have v: "List.map_filter license_identifier ?ls = [JStr ''MIT'', JStr ''Apache-2.0'']"
    by (simp add: license_identifier_def)
  from licenses_in_source_order [OF l d, of "[''srv'', ''sboms'']" "[''a.json'']"
      "JStr ''p''" "JStr []" "JStr []"] l v
  show ?thesis by simp
qed

text \<open>
  C6: For a component object that lacks the fields \<open>version\<close>, \<open>group\<close>, \<open>purl\<close>, \<open>type\<close> and
  \<open>licenses\<close>, extraction (of a file below the SBOM root) does not raise and gives a record
  whose \<open>component_version\<close>, \<open>component_group\<close>, \<open>purl\<close> and \<open>component_type\<close> are the empty
  string and whose \<open>licenses\<close> is the empty list.
\<close>

theorem missing_fields_default:
  assumes "map_of d ''version'' = None" and "map_of d ''group'' = None"
    and "map_of d ''purl'' = None" and "map_of d ''type'' = None"
    and "map_of d ''licenses'' = None"
  shows "\<exists>r. extract_component root (root @ rel) pn pv pg (JObj d) = Inr r
           \<and> component_version r = JStr [] \<and> component_group r = JStr []
           \<and> purl r = JStr [] \<and> component_type r = JStr [] \<and> licenses r = []"
proof -
  have "py_iter (licenses_value d) = Inr []"
    using assms(5) by (simp add: licenses_value_def py_or_def dict_get_def)
  then show ?thesis
    using assms(1-4) by (simp add: extract_component_Inr_iff dict_get_def)
qed

theorem missing_fields_default_witness:
  "map_of [(''name'', JStr ''abc'')] ''version'' = None
   \<and> map_of [(''name'', JStr ''abc'')] ''licenses'' = None
   \<and> (\<exists>r. extract_component [''srv'', ''sboms''] ([''srv'', ''sboms''] @ [''a.json''])
              (JStr ''p'') (JStr []) (JStr []) (JObj [(''name'', JStr ''abc'')]) = Inr r
          \<and> component_version r = JStr [] \<and> component_group r = JStr []
          \<and> purl r = JStr [] \<and> component_type r = JStr [] \<and> licenses r = [])"
proof -
  let ?d = "[(''name'', JStr ''abc'')]"
  have h: "map_of ?d ''version'' = None" "map_of ?d ''group'' = None"
    "map_of ?d ''purl'' = None" "map_of ?d ''type'' = None" "map_of ?d ''licenses'' = None"
    by simp_all
  from missing_fields_default [OF h, of "[''srv'', ''sboms'']" "[''a.json'']"
      "JStr ''p''" "JStr []" "JStr []"] h
  show ?thesis by simp
qed

text \<open>
  C10: If the \<open>licenses\<close> field of a component object is present but holds \<open>null\<close> or any other
  value that Python counts as false, extraction (of a file below the SBOM root) treats it as
  the empty list: it does not raise, and the \<open>licenses\<close> of the record is empty.
\<close>

theorem falsy_licenses_is_empty:
  assumes "map_of d ''licenses'' = Some v" and "\<not> truthy v"
  shows "\<exists>r. extract_component root (root @ rel) pn pv pg (JObj d) = Inr r \<and> licenses r = []"
proof -
  have "py_iter (licenses_value d) = Inr []"
    using assms by (simp add: licenses_value_def py_or_def dict_get_def)
  then show ?thesis by (simp add: extract_component_Inr_iff)
qed

theorem falsy_licenses_is_empty_witness:
  "map_of [(''name'', JStr ''zlib''), (''licenses'', JNull)] ''licenses'' = Some JNull
   \<and> \<not> truthy JNull
   \<and> (\<exists>r. extract_component [''srv'', ''sboms''] ([''srv'', ''sboms''] @ [''a.json''])
              (JStr ''p'') (JStr []) (JStr [])
              (JObj [(''name'', JStr ''zlib''), (''licenses'', JNull)]) = Inr r
          \<and> licenses r = [])"
proof -
  let ?d = "[(''name'', JStr ''zlib''), (''licenses'', JNull)]"
  have h: "map_of ?d ''licenses'' = Some JNull" "\<not> truthy JNull" by simp_all
  from falsy_licenses_is_empty [OF h, of "[''srv'', ''sboms'']" "[''a.json'']"
      "JStr ''p''" "JStr []" "JStr []"] h
  show ?thesis by simp
qed

text \<open>
  C3: Every record extracted from a file has as \<open>project_name\<close> the field
  \<open>metadata.component.name\<close> of the document when that field is present and non-empty (true
  in Python's sense), and otherwise the name derived from the path. For a file below the SBOM
  root the derived name is the parts of its path relative to the root, the last one replaced
  by its stem, joined with \<open>/\<close>; the stem of a name \<open>base.json\<close> is \<open>base\<close>, so
  \<open>teams/alpha/sbom.json\<close> gives \<open>teams/alpha/sbom\<close>. For a path that is not below the root the
  derived name is the stem of its last part.
\<close>

theorem project_name_rule:
  "(extract_parsed root f data = Inr rs \<and> r \<in> set rs \<longrightarrow>
      project_name r =
        (case metadata_component_name data of
           Some v \<Rightarrow> if truthy v then v else JStr (infer_project_name_from_path root f)
         | None \<Rightarrow> JStr (infer_project_name_from_path root f)))
   \<and> (rel \<noteq> [] \<longrightarrow>
        infer_project_name_from_path root (root @ rel)
          = str_join ''/'' (butlast rel @ [stem (last rel)]))
   \<and> (base \<noteq> [] \<longrightarrow> stem (base @ ''.json'') = base)
   \<and> infer_project_name_from_path root (root @ [''teams'', ''alpha'', ''sbom.json''])
        = ''teams/alpha/sbom''
   \<and> (relative_to g root = None \<longrightarrow> infer_project_name_from_path root g = path_stem g)"
proof (intro conjI impI)
  assume "extract_parsed root f data = Inr rs \<and> r \<in> set rs"
  then show "project_name r =
        (case metadata_component_name data of
           Some v \<Rightarrow> if truthy v then v else JStr (infer_project_name_from_path root f)
         | None \<Rightarrow> JStr (infer_project_name_from_path root f))"
    using extract_parsed_project_name [of root f data rs r] by (simp add: project_name_of_def)
next
  assume "rel \<noteq> []"
  then show "infer_project_name_from_path root (root @ rel)
          = str_join ''/'' (butlast rel @ [stem (last rel)])"
    by (rule infer_below_root)
next
  assume "base \<noteq> []"
  then show "stem (base @ ''.json'') = base" by (rule stem_json)
next
  have "stem ''sbom.json'' = ''sbom''" using stem_json [of "''sbom''"] by simp
  then show "infer_project_name_from_path root (root @ [''teams'', ''alpha'', ''sbom.json''])
        = ''teams/alpha/sbom''"
    by (simp add: infer_below_root)
next
  assume "relative_to g root = None"
  then show "infer_project_name_from_path root g = path_stem g"
    by (simp add: infer_project_name_from_path_def)
qed

theorem project_name_rule_witness:
  "extract_parsed [''srv'', ''dash'', ''sboms'']
       [''srv'', ''dash'', ''sboms'', ''teams'', ''alpha'', ''sbom.json''] alpha_doc
     = Inr alpha_records
   \<and> metadata_component_name alpha_doc = None
   \<and> list_all (\<lambda>r. project_name r = JStr ''teams/alpha/sbom'') alpha_records
   \<and> extract_parsed [''srv'', ''dash'', ''sboms''] [''srv'', ''dash'', ''sboms'', ''beta.json'']
        beta_doc = Inr beta_records
   \<and> metadata_component_name beta_doc = Some (JStr ''beta'')
   \<and> project_name (hd beta_records) = JStr ''beta''
   \<and> stem ''sbom.json'' = ''sbom''
   \<and> relative_to [''tmp'', ''x.cdx.json''] [''srv'', ''dash'', ''sboms''] = None
   \<and> infer_project_name_from_path [''srv'', ''dash'', ''sboms''] [''tmp'', ''x.cdx.json'']
        = ''x.cdx''"
proof -
  let ?root = "[''srv'', ''dash'', ''sboms'']"
  have a: "extract_parsed ?root [''srv'', ''dash'', ''sboms'', ''teams'', ''alpha'', ''sbom.json'']
      alpha_doc = Inr alpha_records"
    by code_simp
  have an: "metadata_component_name alpha_doc = None"
    by (simp add: metadata_component_name_def alpha_doc_def)
  have b: "extract_parsed ?root [''srv'', ''dash'', ''sboms'', ''beta.json''] beta_doc
      = Inr beta_records"
    by code_simp
  have bn: "metadata_component_name beta_doc = Some (JStr ''beta'')"
    by (simp add: metadata_component_name_def beta_doc_def)
  have bm: "hd beta_records \<in> set beta_records" by (simp add: beta_records_def)
  have nr: "relative_to [''tmp'', ''x.cdx.json''] ?root = None" by simp
  have ps: "path_stem [''tmp'', ''x.cdx.json''] = ''x.cdx''" by code_simp
  note i1 = project_name_rule [of ?root "?root @ [''beta.json'']" beta_doc beta_records
      "hd beta_records" "[''teams'', ''alpha'', ''sbom.json'']" "''sbom''" "[''tmp'', ''x.cdx.json'']"]
  from i1 b bm bn have p1: "project_name (hd beta_records) = JStr ''beta''" by simp
  from i1 have p2: "stem ''sbom.json'' = ''sbom''" by simp
  from i1 nr ps have p3: "infer_project_name_from_path ?root [''tmp'', ''x.cdx.json''] = ''x.cdx''"
    by simp
  have p4: "list_all (\<lambda>r. project_name r = JStr ''teams/alpha/sbom'') alpha_records"
    by (simp add: alpha_records_def)
  from a an b bn p1 p2 p3 p4 nr show ?thesis by simp
qed

text \<open>
  C1: Whenever a run returns, the array it writes is the stable sort, by the tuple of strings
  (\<open>project_name\<close>, \<open>component_name\<close>, \<open>component_version\<close>) in ascending lexicographic
  order, of the concatenation of what extraction returned for the discovered files, in
  discovery order. So every extracted record occurs in the output as often as in that
  concatenation (equal multisets), the output is non-decreasing in the key, and the records
  of each key stand in the output in the order they have in the concatenation.
\<close>

theorem emitted_is_stable_sort:
  assumes "fst (main cfg w) = Returned"
  shows "\<exists>rss. list_all2 (\<lambda>f rs. extracted (SBOM_ROOT cfg) f = Inr rs) (discovered cfg w) rss
           \<and> list_all str_keyed (concat rss)
           \<and> output_file (snd (main cfg w))
               = Some (json_dump (sort_key sort_key_of (concat rss)))
           \<and> mset (sort_key sort_key_of (concat rss)) = mset (concat rss)
           \<and> sorted (map sort_key_of (sort_key sort_key_of (concat rss)))
           \<and> (\<forall>k. filter (\<lambda>x. sort_key_of x = k) (sort_key sort_key_of (concat rss))
                    = filter (\<lambda>x. sort_key_of x = k) (concat rss))"
proof -
  from main_Returned [OF assms] obtain a where
    a: "aggregated cfg w = Inr a" and k: "list_all str_keyed a"
    and out: "output_file (snd (main cfg w)) = Some (json_dump (sort_key sort_key_of a))"
    by blast
  from a obtain rss where
    rss: "list_all2 (\<lambda>f rs. extracted (SBOM_ROOT cfg) f = Inr rs) (discovered cfg w) rss"
    and c: "a = concat rss"
    unfolding aggregated_def file_loop_Inr_iff by auto
  have "\<forall>k. filter (\<lambda>x. sort_key_of x = k) (sort_key sort_key_of (concat rss))
                    = filter (\<lambda>x. sort_key_of x = k) (concat rss)"
    by (simp add: sort_key_stable)
  with rss k out c show ?thesis by (intro exI [of _ rss]) simp
qed

theorem emitted_is_stable_sort_witness:
  "fst (main example_config example_world) = Returned
   \<and> output_file (snd (main example_config example_world)) = Some (json_dump example_sorted)
   \<and> mset example_sorted = mset (alpha_records @ beta_records)
   \<and> sorted (map sort_key_of example_sorted)"
proof -
  note ret = example_returned
  have disc: "discovered example_config example_world =
      [([''srv'', ''dash'', ''sboms'', ''teams'', ''alpha'', ''sbom.json''], Parsed alpha_doc),
       ([''srv'', ''dash'', ''sboms'', ''broken.json''],
        ReadFailed ''Expecting value: line 1 column 1 (char 0)''),
       ([''srv'', ''dash'', ''sboms'', ''beta.json''], Parsed beta_doc)]"
    by (simp add: discovered_def find_sbom_files_def example_world_def example_config_def
        SBOM_ROOT_def)
  have root: "SBOM_ROOT example_config = [''srv'', ''dash'', ''sboms'']"
    by (simp add: example_config_def SBOM_ROOT_def)
  have e1: "extracted [''srv'', ''dash'', ''sboms'']
      ([''srv'', ''dash'', ''sboms'', ''teams'', ''alpha'', ''sbom.json''], Parsed alpha_doc)
      = Inr alpha_records" by code_simp
  have e2: "extracted [''srv'', ''dash'', ''sboms''] ([''srv'', ''dash'', ''sboms'', ''broken.json''],
        ReadFailed ''Expecting value: line 1 column 1 (char 0)'') = Inr []"
    by (simp add: extracted_failed)
  have e3: "extracted [''srv'', ''dash'', ''sboms'']
      ([''srv'', ''dash'', ''sboms'', ''beta.json''], Parsed beta_doc) = Inr beta_records"
    by code_simp
  have srt: "sort_key sort_key_of (alpha_records @ beta_records) = example_sorted"
    by code_simp
  from emitted_is_stable_sort [OF ret] obtain rss where
    rss: "list_all2 (\<lambda>f rs. extracted (SBOM_ROOT example_config) f = Inr rs)
            (discovered example_config example_world) rss"
    and out: "output_file (snd (main example_config example_world))
               = Some (json_dump (sort_key sort_key_of (concat rss)))"
    and ms: "mset (sort_key sort_key_of (concat rss)) = mset (concat rss)"
    and so: "sorted (map sort_key_of (sort_key sort_key_of (concat rss)))"
    by blast
  from rss have "rss = [alpha_records, [], beta_records]"
    unfolding disc root by (auto simp: list_all2_Cons1 e1 e2 e3)
  then have "concat rss = alpha_records @ beta_records" by simp
  with out ms so srt ret show ?thesis by simp
qed

text \<open>
  C4: For a file whose open, decode or parse fails, extraction prints a warning that names
  the file and the error and returns the empty list. The run goes on: its outcome and the
  output file are those of the run over the same tree without the failing files; when the
  run returns, the warning of every failing file is among the lines printed; and when every
  other file extracts (with string keys), the run returns.
\<close>

theorem read_failure_is_skipped:
  "extract_components_from_sbom root f (ReadFailed e)
     = ([''[WARN] Failed to read SBOM '' @ path_str f @ '': '' @ e], Inr [])
   \<and> fst (main cfg (without_failed w)) = fst (main cfg w)
   \<and> output_file (snd (main cfg (without_failed w))) = output_file (snd (main cfg w))
   \<and> (fst (main cfg w) = Returned \<and> (rel, True, ReadFailed e) \<in> set (rglob_json w) \<longrightarrow>
        (''[WARN] Failed to read SBOM '' @ path_str (SBOM_ROOT cfg @ rel) @ '': '' @ e)
          \<in> set (stdout (snd (main cfg w))))
   \<and> (root_exists w
        \<and> (\<forall>g \<in> set (discovered cfg w).
              read_failed (snd g)
              \<or> (\<exists>rs. extracted (SBOM_ROOT cfg) g = Inr rs \<and> list_all str_keyed rs)) \<longrightarrow>
        fst (main cfg w) = Returned)"
proof (intro conjI impI)
  show "extract_components_from_sbom root f (ReadFailed e)
     = ([''[WARN] Failed to read SBOM '' @ path_str f @ '': '' @ e], Inr [])"
    by (simp add: extract_components_from_sbom_def)
  show "fst (main cfg (without_failed w)) = fst (main cfg w)"
    by (simp only: main_outcome aggregated_without_failed without_failed_fields)
  show "output_file (snd (main cfg (without_failed w))) = output_file (snd (main cfg w))"
    by (simp only: main_output_file aggregated_without_failed without_failed_fields)
next
  assume "fst (main cfg w) = Returned \<and> (rel, True, ReadFailed e) \<in> set (rglob_json w)"
  then show "(''[WARN] Failed to read SBOM '' @ path_str (SBOM_ROOT cfg @ rel) @ '': '' @ e)
          \<in> set (stdout (snd (main cfg w)))"
    using main_warns by blast
next
  assume a: "root_exists w
        \<and> (\<forall>g \<in> set (discovered cfg w).
              read_failed (snd g)
              \<or> (\<exists>rs. extracted (SBOM_ROOT cfg) g = Inr rs \<and> list_all str_keyed rs))"
  have "\<exists>rs. extracted (SBOM_ROOT cfg) g = Inr rs \<and> list_all str_keyed rs"
    if "g \<in> set (discovered cfg w)" for g
  proof (cases "read_failed (snd g)")
    case True
    then have "extracted (SBOM_ROOT cfg) g = Inr []" by (rule extracted_failed)
    then show ?thesis by simp
  next
    case False
    with a that show ?thesis by blast
  qed
  then have "\<forall>g \<in> set (discovered cfg w).
      \<exists>rs. extracted (SBOM_ROOT cfg) g = Inr rs \<and> list_all str_keyed rs"
    by blast
  from file_loop_all_ok [OF this, of "[]"] obtain res where
    "aggregated cfg w = Inr res" and "list_all str_keyed res"
    by (auto simp: aggregated_def)
  with a show "fst (main cfg w) = Returned"
    by (simp add: main_outcome py_sort_def)
qed

theorem read_failure_is_skipped_witness:
  "root_exists example_world
   \<and> ([''broken.json''], True, ReadFailed ''Expecting value: line 1 column 1 (char 0)'')
        \<in> set (rglob_json example_world)
   \<and> fst (main example_config example_world) = Returned
   \<and> ''[WARN] Failed to read SBOM /srv/dash/sboms/broken.json: Expecting value: line 1 column 1 (char 0)''
        \<in> set (stdout (snd (main example_config example_world)))
   \<and> fst (main example_config (without_failed example_world)) = Returned
   \<and> output_file (snd (main example_config (without_failed example_world)))
        = output_file (snd (main example_config example_world))"
proof -
  let ?msg = "''Expecting value: line 1 column 1 (char 0)''"
  note inst = read_failure_is_skipped
    [of "[''srv'', ''dash'', ''sboms'']" "[''srv'', ''dash'', ''sboms'', ''broken.json'']" ?msg
        example_config example_world "[''broken.json'']"]
  have m: "([''broken.json''], True, ReadFailed ?msg) \<in> set (rglob_json example_world)"
    by (simp add: example_world_def)
  have ok: "\<forall>g \<in> set (discovered example_config example_world).
      read_failed (snd g)
      \<or> (\<exists>rs. extracted (SBOM_ROOT example_config) g = Inr rs \<and> list_all str_keyed rs)"
    by (simp add: example_discovered example_root example_extracted example_keyed)
  from inst example_root_exists ok have ret: "fst (main example_config example_world) = Returned"
    by blast
  from inst ret m have
    "(''[WARN] Failed to read SBOM '' @ path_str (SBOM_ROOT example_config @ [''broken.json''])
        @ '': '' @ ?msg) \<in> set (stdout (snd (main example_config example_world)))"
    by blast
  then have warn: "''[WARN] Failed to read SBOM /srv/dash/sboms/broken.json: Expecting value: line 1 column 1 (char 0)''
        \<in> set (stdout (snd (main example_config example_world)))"
    by (simp add: example_root path_str_def)
  from inst have same: "fst (main example_config (without_failed example_world))
        = fst (main example_config example_world)"
    and out: "output_file (snd (main example_config (without_failed example_world)))
        = output_file (snd (main example_config example_world))"
    by blast+
  from example_root_exists m ret warn same out show ?thesis by simp
qed

text \<open>
  C8: The program is deterministic in its inputs. A second run on the state the first run
  left ends the same way and leaves the same output file; and two runs on states that agree
  on the SBOM root and on the tree below it (the same files with the same contents in the
  same enumeration order) end the same way and, when they return, write the same bytes,
  whatever the output file and the console held before.
\<close>

theorem runs_are_repeatable:
  "fst (main cfg (snd (main cfg w))) = fst (main cfg w)
   \<and> output_file (snd (main cfg (snd (main cfg w)))) = output_file (snd (main cfg w))
   \<and> (root_exists w' = root_exists w \<and> rglob_json w' = rglob_json w \<longrightarrow>
        fst (main cfg w') = fst (main cfg w)
        \<and> (fst (main cfg w) = Returned \<longrightarrow>
             output_file (snd (main cfg w')) = output_file (snd (main cfg w))))"
proof -
  have same: "aggregated cfg u = aggregated cfg v" if "rglob_json u = rglob_json v" for u v
    using that by (simp add: aggregated_def discovered_def find_sbom_files_def)
  have again: "aggregated cfg (snd (main cfg w)) = aggregated cfg w"
    by (rule same) (rule main_inputs)
  have 1: "fst (main cfg (snd (main cfg w))) = fst (main cfg w)"
    by (simp only: main_outcome [of cfg "snd (main cfg w)"] again main_inputs)
       (simp only: main_outcome [of cfg w])
  have 2: "output_file (snd (main cfg (snd (main cfg w)))) = output_file (snd (main cfg w))"
    by (simp add: main_output_file [of cfg "snd (main cfg w)"] again main_inputs)
       (simp add: main_output_file [of cfg w] split: sum.splits option.splits)
  have 3: "fst (main cfg w') = fst (main cfg w)
        \<and> (fst (main cfg w) = Returned \<longrightarrow>
             output_file (snd (main cfg w')) = output_file (snd (main cfg w)))"
    if "root_exists w' = root_exists w \<and> rglob_json w' = rglob_json w"
    using that same [of w' w]
    by (auto simp: main_outcome main_output_file split: sum.splits option.splits)
  from 1 2 3 show ?thesis by blast
qed

theorem runs_are_repeatable_witness:
  "root_exists stale_world = root_exists example_world
   \<and> rglob_json stale_world = rglob_json example_world
   \<and> output_file stale_world = Some ''stale''
   \<and> output_file example_world = None
   \<and> fst (main example_config example_world) = Returned
   \<and> fst (main example_config stale_world) = Returned
   \<and> output_file (snd (main example_config stale_world))
        = output_file (snd (main example_config example_world))
   \<and> fst (main example_config (snd (main example_config example_world))) = Returned
   \<and> output_file (snd (main example_config (snd (main example_config example_world))))
        = output_file (snd (main example_config example_world))"
proof -
  have h: "root_exists stale_world = root_exists example_world
      \<and> rglob_json stale_world = rglob_json example_world"
    by (simp add: stale_world_def)
  have o: "output_file stale_world = Some ''stale''" "output_file example_world = None"
    by (simp_all add: stale_world_def example_world_def)
  note inst = runs_are_repeatable [of example_config example_world stale_world]
  from inst h example_returned have
    "fst (main example_config stale_world) = Returned
     \<and> output_file (snd (main example_config stale_world))
        = output_file (snd (main example_config example_world))"
    by simp
  moreover from inst example_returned have
    "fst (main example_config (snd (main example_config example_world))) = Returned
     \<and> output_file (snd (main example_config (snd (main example_config example_world))))
        = output_file (snd (main example_config example_world))"
    by simp
  ultimately show ?thesis using h o example_returned by simp
qed

text \<open>
  C5, as the code has it: the program exits with code 0 exactly when \<open>main\<close> returns, and
  then the SBOM root exists and the output file has been written; with an existing root and
  no \<open>.json\<close> file it exits with code 0 and writes the empty array \<open>[]\<close>. It exits with code 1
  when the SBOM root is missing, before anything is written. With the root present it also
  exits with code 1, again with the output file untouched, when extraction of a file that was
  read and parsed raises \<open>AttributeError\<close> or \<open>TypeError\<close>; among the outcomes that
  \<open>exit_code\<close> covers (the sort of keys that are not strs is left out), an exit with code 1
  and the root present always has this cause.
\<close>

theorem exit_codes:
  "(\<not> root_exists w \<longrightarrow>
      fst (main cfg w)
        = Raised (SystemExit (''SBOM root directory does not exist: '' @ path_str (SBOM_ROOT cfg)))
      \<and> exit_code (fst (main cfg w)) = Some 1
      \<and> output_file (snd (main cfg w)) = output_file w)
   \<and> (root_exists w \<and> discovered cfg w = [] \<longrightarrow>
        exit_code (fst (main cfg w)) = Some 0 \<and> output_file (snd (main cfg w)) = Some ''[]'')
   \<and> (exit_code (fst (main cfg w)) = Some 0 \<longrightarrow>
        root_exists w \<and> (\<exists>rs. output_file (snd (main cfg w)) = Some (json_dump rs)))
   \<and> (root_exists w \<and> exit_code (fst (main cfg w)) = Some 1 \<longrightarrow>
        output_file (snd (main cfg w)) = output_file w
        \<and> (\<exists>rel data e. (rel, True, Parsed data) \<in> set (rglob_json w)
              \<and> extract_parsed (SBOM_ROOT cfg) (SBOM_ROOT cfg @ rel) data = Inl e
              \<and> (e = AttributeError \<or> e = TypeError)
              \<and> fst (main cfg w) = Raised e))"
proof -
  have 1: "fst (main cfg w)
        = Raised (SystemExit (''SBOM root directory does not exist: '' @ path_str (SBOM_ROOT cfg)))
      \<and> exit_code (fst (main cfg w)) = Some 1
      \<and> output_file (snd (main cfg w)) = output_file w"
    if "\<not> root_exists w"
    using that by (simp add: main_outcome main_output_file)
  have 2: "exit_code (fst (main cfg w)) = Some 0 \<and> output_file (snd (main cfg w)) = Some ''[]''"
    if a: "root_exists w \<and> discovered cfg w = []"
  proof -
    from a have agg: "aggregated cfg w = Inr []" by (simp add: aggregated_def)
    from a agg show ?thesis
      by (simp add: main_outcome main_output_file py_sort_def json_dump_def)
  qed
  have 3: "root_exists w \<and> (\<exists>rs. output_file (snd (main cfg w)) = Some (json_dump rs))"
    if "exit_code (fst (main cfg w)) = Some 0"
  proof -
    from that have "fst (main cfg w) = Returned" by (cases "fst (main cfg w)") simp_all
    from main_Returned [OF this] show ?thesis by blast
  qed
  have 4: "output_file (snd (main cfg w)) = output_file w
        \<and> (\<exists>rel data e. (rel, True, Parsed data) \<in> set (rglob_json w)
              \<and> extract_parsed (SBOM_ROOT cfg) (SBOM_ROOT cfg @ rel) data = Inl e
              \<and> (e = AttributeError \<or> e = TypeError)
              \<and> fst (main cfg w) = Raised e)"
    if "root_exists w \<and> exit_code (fst (main cfg w)) = Some 1"
    using that main_Raised [of w cfg] by blast
  from 1 2 3 4 show ?thesis by blast
qed

theorem exit_codes_witness:
  "\<not> root_exists missing_world
   \<and> exit_code (fst (main example_config missing_world)) = Some 1
   \<and> output_file (snd (main example_config missing_world)) = Some ''[]''
   \<and> root_exists empty_world \<and> discovered example_config empty_world = []
   \<and> output_file empty_world = None
   \<and> exit_code (fst (main example_config empty_world)) = Some 0
   \<and> output_file (snd (main example_config empty_world)) = Some ''[]''
   \<and> exit_code (fst (main example_config example_world)) = Some 0
   \<and> (\<exists>rs. output_file (snd (main example_config example_world)) = Some (json_dump rs))
   \<and> root_exists array_world
   \<and> fst (main example_config array_world) = Raised AttributeError
   \<and> output_file (snd (main example_config array_world)) = Some ''[]''"
proof -
  have m: "\<not> root_exists missing_world" "output_file missing_world = Some ''[]''"
    by (simp_all add: missing_world_def)
  have e: "root_exists empty_world \<and> discovered example_config empty_world = []"
    "output_file empty_world = None"
    by (simp_all add: empty_world_def discovered_def find_sbom_files_def)
  have x: "exit_code (fst (main example_config example_world)) = Some 0"
    by (simp add: example_returned)
  have a: "root_exists array_world" "output_file array_world = Some ''[]''"
    by (simp_all add: array_world_def)
  have a1: "exit_code (fst (main example_config array_world)) = Some 1"
    by (simp add: main_outcome array_aggregated a)
  from exit_codes [of missing_world example_config] m have 1:
    "exit_code (fst (main example_config missing_world)) = Some 1
     \<and> output_file (snd (main example_config missing_world)) = Some ''[]''"
    by simp
  from exit_codes [of empty_world example_config] e have 2:
    "exit_code (fst (main example_config empty_world)) = Some 0
     \<and> output_file (snd (main example_config empty_world)) = Some ''[]''"
    by blast
  from exit_codes [of example_world example_config] x have 3:
    "\<exists>rs. output_file (snd (main example_config example_world)) = Some (json_dump rs)"
    by blast
  from exit_codes [of array_world example_config] a a1 have 4:
    "output_file (snd (main example_config array_world)) = Some ''[]''"
    by simp
  have 5: "fst (main example_config array_world) = Raised AttributeError"
    by (simp add: main_outcome array_aggregated a)
  from m e x a 1 2 3 4 5 show ?thesis by simp
qed

text \<open>
  C5 as stated fails: with the SBOM root present and one file that parses to a JSON array,
  the run ends with exit code 1.
\<close>

theorem nonzero_exit_with_root_present:
  "root_exists array_world \<and> exit_code (fst (main example_config array_world)) = Some 1"
proof -
  have r: "root_exists array_world" by (simp add: array_world_def)
  then show ?thesis by (simp add: main_outcome array_aggregated)
qed

text \<open>
  C7, as the code has it: every record of the output has as \<open>sbom_path\<close> the parts of the
  source file's path below the SBOM root, joined with \<open>/\<close>; it is never empty and never starts
  with \<open>/\<close>, so it is never an absolute path; and it contains a backslash exactly when one of
  the names on that path contains one (a backslash is an ordinary character of a POSIX file
  name, and \<open>as_posix\<close> leaves it).
\<close>

theorem sbom_path_is_relative:
  assumes "fst (main cfg w) = Returned" and "names_ok w"
  shows "\<exists>emitted. output_file (snd (main cfg w)) = Some (json_dump emitted)
           \<and> (\<forall>r \<in> set emitted.
                \<exists>rel rd. (rel, True, rd) \<in> set (rglob_json w)
                  \<and> sbom_path r = str_join ''/'' rel
                  \<and> sbom_path r \<noteq> [] \<and> hd (sbom_path r) \<noteq> CHR ''/''
                  \<and> (CHR 0x5C \<in> set (sbom_path r) \<longleftrightarrow> (\<exists>s \<in> set rel. CHR 0x5C \<in> set s)))"
proof -
  from main_Returned [OF assms(1)] obtain a where
    a: "aggregated cfg w = Inr a"
    and out: "output_file (snd (main cfg w)) = Some (json_dump (sort_key sort_key_of a))"
    by blast
  have "\<exists>rel rd. (rel, True, rd) \<in> set (rglob_json w)
          \<and> sbom_path r = str_join ''/'' rel
          \<and> sbom_path r \<noteq> [] \<and> hd (sbom_path r) \<noteq> CHR ''/''
          \<and> (CHR 0x5C \<in> set (sbom_path r) \<longleftrightarrow> (\<exists>s \<in> set rel. CHR 0x5C \<in> set s))"
    if "r \<in> set (sort_key sort_key_of a)" for r
  proof -
    from that have "r \<in> set a" by simp
    from aggregated_member [OF a this] obtain rel rd rs where
      m: "(rel, True, rd) \<in> set (rglob_json w)"
      and x: "extracted (SBOM_ROOT cfg) (SBOM_ROOT cfg @ rel, rd) = Inr rs" and r: "r \<in> set rs"
      by blast
    from assms(2) m have ne: "rel \<noteq> []"
      and parts: "\<forall>s \<in> set rel. s \<noteq> [] \<and> CHR ''/'' \<notin> set s"
      by (auto simp: names_ok_def list_all_iff)
    from extracted_sbom_path [OF x r] ne have p: "sbom_path r = str_join ''/'' rel"
      by (simp add: as_posix_def)
    from ne parts have h: "hd rel \<noteq> []" "CHR ''/'' \<notin> set (hd rel)" by auto
    from hd_str_join [OF ne h(1), of "''/''"]
    have j: "str_join ''/'' rel \<noteq> []" "hd (str_join ''/'' rel) = hd (hd rel)"
      by simp_all
    from h(1) have "hd (hd rel) \<in> set (hd rel)" by simp
    with h(2) have "hd (hd rel) \<noteq> CHR ''/''" by auto
    with j p have q: "sbom_path r \<noteq> []" "hd (sbom_path r) \<noteq> CHR ''/''" by simp_all
    have b: "CHR 0x5C \<in> set (sbom_path r) \<longleftrightarrow> (\<exists>s \<in> set rel. CHR 0x5C \<in> set s)"
      unfolding p by (rule backslash_in_joined)
    from m p q b show ?thesis by blast
  qed
  with out show ?thesis by blast
qed

theorem sbom_path_is_relative_witness:
  "fst (main example_config example_world) = Returned
   \<and> names_ok example_world
   \<and> (\<exists>emitted. output_file (snd (main example_config example_world)) = Some (json_dump emitted)
         \<and> list_all (\<lambda>r. sbom_path r \<noteq> [] \<and> hd (sbom_path r) \<noteq> CHR ''/''
                          \<and> CHR 0x5C \<notin> set (sbom_path r)) emitted)"
proof -
  have n: "names_ok example_world" by (simp add: names_ok_def example_world_def)
  have nb: "\<not> (\<exists>s \<in> set rel. CHR 0x5C \<in> set s)"
    if "(rel, True, rd) \<in> set (rglob_json example_world)" for rel rd
    using that by (auto simp: example_world_def)
  from sbom_path_is_relative [OF example_returned n] obtain emitted where
    out: "output_file (snd (main example_config example_world)) = Some (json_dump emitted)"
    and each: "\<forall>r \<in> set emitted.
        \<exists>rel rd. (rel, True, rd) \<in> set (rglob_json example_world)
          \<and> sbom_path r = str_join ''/'' rel
          \<and> sbom_path r \<noteq> [] \<and> hd (sbom_path r) \<noteq> CHR ''/''
          \<and> (CHR 0x5C \<in> set (sbom_path r) \<longleftrightarrow> (\<exists>s \<in> set rel. CHR 0x5C \<in> set s))"
    by blast
  from each nb have "list_all (\<lambda>r. sbom_path r \<noteq> [] \<and> hd (sbom_path r) \<noteq> CHR ''/''
                          \<and> CHR 0x5C \<notin> set (sbom_path r)) emitted"
    unfolding list_all_iff by blast
  with out example_returned n show ?thesis by blast
qed

text \<open>
  C7 as stated fails: a file whose name contains a backslash gives a record whose
  \<open>sbom_path\<close> contains it.
\<close>

theorem backslash_in_sbom_path:
  "fst (main example_config backslash_world) = Returned
   \<and> output_file (snd (main example_config backslash_world)) = Some (json_dump backslash_records)
   \<and> CHR 0x5C \<in> set (sbom_path (hd backslash_records))"
proof -
  have r: "root_exists backslash_world" by (simp add: backslash_world_def)
  have k: "list_all str_keyed backslash_records" by code_simp
  have s: "sort_key sort_key_of backslash_records = backslash_records"
    by (simp add: backslash_records_def)
  have b: "CHR 0x5C \<in> set (sbom_path (hd backslash_records))"
    by (simp add: backslash_records_def backslash_name_def)
  from r k s b show ?thesis
    by (simp add: main_outcome main_output_file backslash_aggregated py_sort_def)
qed

end
